theory Spec2Isabelle
  imports Complex_Main "HOL-Library.AList"
begin

section \<open>Common conventions\<close>

text \<open>
  A Python float is a finite double, given by its exact value as a rational (\<open>rat\<close>);
  infinities and NaN are not represented. Where a buy is sized (the spend and the
  quantity of \<open>place_buy_order\<close>) the rounding of double arithmetic and of
  \<open>decimal.Decimal\<close> in its default context (28 significant digits, ties to even) is
  part of the model; the other products and quotients of the source (the totals recorded
  and notified, the quotient kept in \<open>buy_order_quantity\<close>, the 2% band of the alert
  checks) are taken exact. Logging has no effect
  on any state below and is left out. Wall-clock readings (\<open>int(time.time())\<close>) and the
  replies of the exchange are inputs of the model.
\<close>

datatype exn = RequestException | ValueError | DivisionByZero | InvalidOperation

type_synonym 'a res = "exn + 'a"

section \<open>Double and decimal rounding\<close>

text \<open>The number of digits of a positive integer in base \<open>b\<close>.\<close>

function digit_count :: "int \<Rightarrow> int \<Rightarrow> int" where
  "digit_count b n = (if 1 < b \<and> 0 < n then 1 + digit_count b (n div b) else 0)"
  by pat_completeness auto
termination
proof (relation "measure (\<lambda>(b, n). nat n)")
  show "wf (measure (\<lambda>(b, n). nat n))" by simp
next
  fix b n :: int
  assume "1 < b \<and> 0 < n"
  then have "n div b < n" "0 < n" by (simp_all add: int_div_less_self)
  then show "((b, n div b), (b, n)) \<in> measure (\<lambda>(b, n). nat n)" by simp
qed

declare digit_count.simps [simp del]

text \<open>The exponent \<open>e\<close> of a positive number \<open>x\<close> in base \<open>b\<close>: \<open>b\<^sup>e \<le> x < b\<^sup>e\<^sup>+\<^sup>1\<close>.\<close>

definition ilog :: "int \<Rightarrow> rat \<Rightarrow> int" where
  "ilog b x =
     (if x \<ge> 1 then digit_count b \<lfloor>x\<rfloor> - 1
      else - digit_count b (\<lceil>1 / x\<rceil> - 1))"

text \<open>Rounding to the nearest integer, a tie to the even one.\<close>

definition round_half_even :: "rat \<Rightarrow> int" where
  "round_half_even x =
     (let f = \<lfloor>x\<rfloor>; d = x - of_int f
      in if d < 1 / 2 then f else if d > 1 / 2 then f + 1 else if even f then f else f + 1)"

text \<open>
  The result of a \<open>Decimal\<close> operation in a context of \<open>prec\<close> digits with
  \<open>ROUND_HALF_EVEN\<close>: the exact result rounded to \<open>prec\<close> significant digits.
\<close>

definition round_sig :: "nat \<Rightarrow> rat \<Rightarrow> rat" where
  "round_sig prec x =
     (if x = 0 then 0
      else (let q = 10 powi (ilog 10 \<bar>x\<bar> - (int prec - 1))
            in of_int (round_half_even (x / q)) * q))"

text \<open>
  The double nearest to a number, a tie to the even significand: 53 significant bits,
  and a fixed spacing of \<open>2\<^sup>-\<^sup>1\<^sup>0\<^sup>7\<^sup>4\<close> below \<open>2\<^sup>-\<^sup>1\<^sup>0\<^sup>2\<^sup>2\<close>. This is the result of a float
  operation on the exact result, of \<open>float(...)\<close> on a \<open>Decimal\<close>, and of a float
  literal, as long as the range of the doubles is not left.
\<close>

definition to_double :: "rat \<Rightarrow> rat" where
  "to_double x =
     (if x = 0 then 0
      else (let q = 2 powi (max (ilog 2 \<bar>x\<bar>) (- 1022) - 52)
            in of_int (round_half_even (x / q)) * q))"

section \<open>Exchange and notifier calls, as observable events\<close>

datatype side = Buy | Sell

text \<open>The texts handed to \<open>discord.send_message\<close> by the trading loop.\<close>

datatype message =
    BuyFilled "rat option"
  | SellFilled rat
  | BuyPlaced rat
  | SellPlaced rat

text \<open>
  Calls of the exchange client and of the Discord webhook, in the order they are made.
  The webhook catches its own request failures and returns a flag, so a notification
  does not raise.
\<close>

datatype event =
    ApiGetOrderStatus string
  | ApiGetBalance
  | ApiPlaceOrder side string rat rat
  | SendMessage message
  | SendPriceAlert string rat string rat
  | SendTradeNotification side string rat rat rat "string option"

section \<open>PriceTracker (core/tracker.py)\<close>

text \<open>
  The reply of \<open>api.get_ticker\<close>: it raises, or it returns a ticker whose
  \<open>last_price\<close> field is present or missing.
\<close>

datatype ticker_reply = TickerRaises exn | Ticker "rat option"

record price_sample =
  timestamp :: int
  sample_price :: rat

text \<open>
  A callback registered with the tracker works on an observer state of its own; it
  may raise after having changed that state.
\<close>

type_synonym 'o callback = "rat \<Rightarrow> 'o \<Rightarrow> exn option \<times> 'o"

record 'o price_tracker =
  current_price :: "rat option"
  price_history :: "price_sample list"
  callbacks :: "'o callback list"

definition init_tracker :: "'o price_tracker" where
  "init_tracker = \<lparr>current_price = None, price_history = [], callbacks = []\<rparr>"

text \<open>The body of the \<open>try\<close> of \<open>get_current_price\<close>: \<open>float(ticker.get("last_price", 0))\<close>.\<close>

definition fetch_last_price :: "ticker_reply \<Rightarrow> rat res" where
  "fetch_last_price r =
     (case r of
        TickerRaises e \<Rightarrow> Inl e
      | Ticker None \<Rightarrow> Inr 0
      | Ticker (Some p) \<Rightarrow> Inr p)"

text \<open>\<open>self.current_price or 0\<close>: \<open>None\<close> and \<open>0.0\<close> are both falsy.\<close>

definition cached_or_zero :: "rat option \<Rightarrow> rat" where
  "cached_or_zero c = (case c of None \<Rightarrow> 0 | Some p \<Rightarrow> if p = 0 then 0 else p)"

text \<open>
  \<open>get_current_price\<close> with its handler: the result is a value or an exception that
  reaches the caller, together with the tracker afterwards.
\<close>

definition get_current_price ::
  "ticker_reply \<Rightarrow> 'o price_tracker \<Rightarrow> rat res \<times> 'o price_tracker" where
  "get_current_price r t =
     (case fetch_last_price r of
        Inr p \<Rightarrow> (Inr p, t\<lparr>current_price := Some p\<rparr>)
      | Inl e \<Rightarrow> (Inr (cached_or_zero (current_price t)), t))"

definition register_callback :: "'o callback \<Rightarrow> 'o price_tracker \<Rightarrow> 'o price_tracker" where
  "register_callback cb t = t\<lparr>callbacks := callbacks t @ [cb]\<rparr>"

text \<open>
  Python's \<open>xs[i:]\<close>: a negative start counts from the end and is clamped at the front.
\<close>

definition slice_from :: "int \<Rightarrow> 'a list \<Rightarrow> 'a list" where
  "slice_from i xs =
     (if i < 0 then drop (nat (max 0 (int (length xs) + i))) xs else drop (nat i) xs)"

text \<open>
  \<open>get_price_history(limit)\<close>: \<open>if limit and limit < len(h): return h[-limit:]\<close>,
  otherwise the whole history. \<open>None\<close> and \<open>0\<close> are falsy.
\<close>

definition get_price_history :: "int option \<Rightarrow> 'o price_tracker \<Rightarrow> price_sample list" where
  "get_price_history limit t =
     (case limit of
        None \<Rightarrow> price_history t
      | Some l \<Rightarrow>
          if l \<noteq> 0 \<and> l < int (length (price_history t))
          then slice_from (- l) (price_history t)
          else price_history t)"

text \<open>\<open>for callback in self.callbacks: try: callback(price) except Exception: log\<close>\<close>

fun call_callbacks :: "'o callback list \<Rightarrow> rat \<Rightarrow> 'o \<Rightarrow> 'o" where
  "call_callbacks [] p ob = ob"
| "call_callbacks (cb # cbs) p ob = call_callbacks cbs p (snd (cb p ob))"

text \<open>\<open>self.price_history.append(...)\<close>, then \<open>pop(0)\<close> once the length exceeds 1000.\<close>

definition append_sample :: "price_sample \<Rightarrow> price_sample list \<Rightarrow> price_sample list" where
  "append_sample smp h =
     (let h' = h @ [smp] in if length h' > 1000 then tl h' else h')"

text \<open>
  One pass of the \<open>while self._running\<close> loop of \<open>start_tracking\<close>, given the ticker
  reply and the clock reading of that pass. An exception of \<open>get_current_price\<close>
  would leave the loop.
\<close>

definition tracking_cycle ::
  "ticker_reply \<times> int \<Rightarrow> 'o price_tracker \<times> 'o \<Rightarrow> ('o price_tracker \<times> 'o) res" where
  "tracking_cycle tick st =
     (case get_current_price (fst tick) (fst st) of
        (Inl e, t') \<Rightarrow> Inl e
      | (Inr p, t') \<Rightarrow>
          Inr (t'\<lparr>price_history :=
                    append_sample \<lparr>timestamp = snd tick, sample_price = p\<rparr> (price_history t')\<rparr>,
               call_callbacks (callbacks t') p (snd st)))"

text \<open>The loop, run for as many passes as there are ticks before it is stopped.\<close>

fun start_tracking ::
  "(ticker_reply \<times> int) list \<Rightarrow> 'o price_tracker \<times> 'o \<Rightarrow> 'o price_tracker \<times> 'o" where
  "start_tracking [] st = st"
| "start_tracking (tick # ticks) st =
     (case tracking_cycle tick st of
        Inl e \<Rightarrow> st
      | Inr st' \<Rightarrow> start_tracking ticks st')"

text \<open>The prices the loop observes, one per tick, from a given cache.\<close>

fun observed_prices :: "rat option \<Rightarrow> ticker_reply list \<Rightarrow> rat list" where
  "observed_prices c [] = []"
| "observed_prices c (r # rs) =
     (case fetch_last_price r of
        Inr p \<Rightarrow> p # observed_prices (Some p) rs
      | Inl e \<Rightarrow> cached_or_zero c # observed_prices c rs)"

definition observed_samples :: "rat option \<Rightarrow> (ticker_reply \<times> int) list \<Rightarrow> price_sample list" where
  "observed_samples c ticks =
     map (\<lambda>(ts, p). \<lparr>timestamp = ts, sample_price = p\<rparr>)
       (zip (map snd ticks) (observed_prices c (map fst ticks)))"

section \<open>AlertSystem (core/alerts.py)\<close>

text \<open>\<open>str.lower\<close> on ASCII letters.\<close>

definition lower_char :: "char \<Rightarrow> char" where
  "lower_char c =
     (let n = (of_char c :: nat) in if 65 \<le> n \<and> n \<le> 90 then char_of (n + 32) else c)"

definition lower :: "string \<Rightarrow> string" where
  "lower s = map lower_char s"

record alert =
  alert_type :: string
  alert_threshold :: rat
  alert_current_price :: rat

text \<open>
  \<open>thresholds\<close> is a dict from alert name to price, kept in insertion order. The
  identifier \<open>f"{alert_type}_{threshold}"\<close> determines the pair of name and threshold,
  so the set of triggered identifiers is a set of such pairs.
\<close>

record alert_system =
  alert_pair :: string
  thresholds :: "(string \<times> rat) list"
  triggered_alerts :: "(string \<times> rat) set"

text \<open>The body of the \<open>for\<close> loop of \<open>check_alerts\<close> for one entry of the dict.\<close>

definition check_threshold ::
  "rat \<Rightarrow> string \<times> rat \<Rightarrow> alert list \<times> (string \<times> rat) set \<Rightarrow> alert list \<times> (string \<times> rat) set" where
  "check_threshold cur item acc =
     (let ty = fst item; thr = snd item; alert_id = (ty, thr);
          triggered = fst acc; tset = snd acc;
          fired = \<lparr>alert_type = ty, alert_threshold = thr, alert_current_price = cur\<rparr>
      in if lower ty = ''high'' \<and> cur \<ge> thr then
           (if alert_id \<notin> tset then (triggered @ [fired], insert alert_id tset) else acc)
         else if lower ty = ''low'' \<and> cur \<le> thr then
           (if alert_id \<notin> tset then (triggered @ [fired], insert alert_id tset) else acc)
         else if (lower ty = ''high'' \<and> cur < thr * 0.98)
               \<or> (lower ty = ''low'' \<and> cur > thr * 1.02) then
           (if alert_id \<in> tset then (triggered, tset - {alert_id}) else acc)
         else acc)"

definition check_alerts :: "rat \<Rightarrow> alert_system \<Rightarrow> alert list \<times> alert_system" where
  "check_alerts cur a =
     (let r = fold (check_threshold cur) (thresholds a) ([], triggered_alerts a)
      in (fst r, a\<lparr>triggered_alerts := snd r\<rparr>))"

text \<open>
  \<open>price_callback\<close>: the observer state is the alert system with the notifications it
  has sent so far.
\<close>

definition price_callback :: "(alert_system \<times> event list) callback" where
  "price_callback p ob =
     (let r = check_alerts p (fst ob)
      in (None,
          (snd r,
           snd ob @ map (\<lambda>al. SendPriceAlert (alert_pair (snd r)) (alert_current_price al)
                                 (alert_type al) (alert_threshold al)) (fst r))))"

text \<open>
  The \<open>monitor_loop\<close> thread of \<open>start_monitoring(use_existing_tracker=False)\<close>: any
  exception ends the loop.
\<close>

fun monitor_loop ::
  "ticker_reply list \<Rightarrow> 'o price_tracker \<times> alert_system \<times> event list
     \<Rightarrow> 'o price_tracker \<times> alert_system \<times> event list" where
  "monitor_loop [] st = st"
| "monitor_loop (r # rs) st =
     (case get_current_price r (fst st) of
        (Inl e, t') \<Rightarrow> (t', snd st)
      | (Inr p, t') \<Rightarrow>
          (case price_callback p (snd st) of
             (Some e, ob') \<Rightarrow> (t', ob')
           | (None, ob') \<Rightarrow> monitor_loop rs (t', ob')))"

text \<open>
  \<open>start_monitoring\<close> when not yet running: with \<open>use_existing_tracker\<close> the callback is
  registered and the tracker's own loop drives it; otherwise the monitor loop runs.
\<close>

definition start_monitoring ::
  "bool \<Rightarrow> (ticker_reply \<times> int) list
     \<Rightarrow> (alert_system \<times> event list) price_tracker \<times> alert_system \<times> event list
     \<Rightarrow> (alert_system \<times> event list) price_tracker \<times> alert_system \<times> event list" where
  "start_monitoring use_existing_tracker ticks st =
     (if use_existing_tracker
      then start_tracking ticks (register_callback price_callback (fst st), snd st)
      else monitor_loop (map fst ticks) st)"

text \<open>Feeding prices one at a time to \<open>check_alerts\<close>: the alerts of each call, and the system afterwards.\<close>

fun feed_alerts :: "rat list \<Rightarrow> alert_system \<Rightarrow> alert list list \<times> alert_system" where
  "feed_alerts [] a = ([], a)"
| "feed_alerts (p # ps) a =
     (let r = check_alerts p a; rest = feed_alerts ps (snd r)
      in (fst r # fst rest, snd rest))"

section \<open>Trader (core/trader.py)\<close>

record order_record =
  order_type :: side
  order_price :: rat
  order_quantity :: rat
  order_total :: rat
  order_status :: "string option"
  order_timestamp :: int

text \<open>One entry of the reply of \<open>api.get_balance\<close>; each key may be missing.\<close>

record raw_balance =
  raw_currency :: "string option"
  raw_balance :: "rat option"
  raw_locked_balance :: "rat option"

record holding =
  currency :: string
  available :: rat
  locked :: rat

record balance =
  crypto :: holding
  fiat :: holding

text \<open>\<open>active_orders\<close> is a dict from order id to record, kept in insertion order.\<close>

record trader =
  trading_pair :: string
  active_orders :: "(string \<times> order_record) list"

text \<open>\<open>balance.get(key, 0)\<close>\<close>

definition get_or_zero :: "rat option \<Rightarrow> rat" where
  "get_or_zero v = (case v of None \<Rightarrow> 0 | Some x \<Rightarrow> x)"

text \<open>The body of the \<open>for balance in balances\<close> loop of \<open>get_account_balance\<close>.\<close>

definition scan_balance :: "string \<Rightarrow> string \<Rightarrow> raw_balance \<Rightarrow> balance \<Rightarrow> balance" where
  "scan_balance crypto_currency fiat_currency b result =
     (if raw_currency b = Some crypto_currency then
        result\<lparr>crypto := (crypto result)\<lparr>available := get_or_zero (raw_balance b),
                                           locked := get_or_zero (raw_locked_balance b)\<rparr>\<rparr>
      else if raw_currency b = Some fiat_currency then
        result\<lparr>fiat := (fiat result)\<lparr>available := get_or_zero (raw_balance b),
                                       locked := get_or_zero (raw_locked_balance b)\<rparr>\<rparr>
      else result)"

definition get_account_balance :: "raw_balance list res \<Rightarrow> trader \<Rightarrow> balance res" where
  "get_account_balance reply tr =
     (case reply of
        Inl e \<Rightarrow> Inl e
      | Inr balances \<Rightarrow>
          (let crypto_currency = take 3 (trading_pair tr);
               fiat_currency = drop 3 (trading_pair tr);
               result = \<lparr>crypto = \<lparr>currency = crypto_currency, available = 0, locked = 0\<rparr>,
                         fiat = \<lparr>currency = fiat_currency, available = 0, locked = 0\<rparr>\<rparr>
           in Inr (fold (scan_balance crypto_currency fiat_currency) balances result)))"

text \<open>\<open>ROUND_DOWN\<close> of \<open>decimal\<close> rounds toward zero.\<close>

definition round_down :: "rat \<Rightarrow> int" where
  "round_down x = (if x \<ge> 0 then \<lfloor>x\<rfloor> else \<lceil>x\<rceil>)"

text \<open>\<open>q.quantize(Decimal('0.00000001'), rounding=ROUND_DOWN)\<close>\<close>

definition quantize_down :: "rat \<Rightarrow> rat" where
  "quantize_down q = of_int (round_down (q * 10 ^ 8)) / 10 ^ 8"

text \<open>
  \<open>quantize\<close> raises \<open>InvalidOperation\<close> when the result would need more digits than the
  precision of the context, 28.
\<close>

definition quantize :: "rat \<Rightarrow> rat res" where
  "quantize q =
     (if \<bar>round_down (q * 10 ^ 8)\<bar> \<ge> 10 ^ 28 then Inl InvalidOperation
      else Inr (quantize_down q))"

text \<open>
  \<open>Decimal(a) / Decimal(b)\<close>: the conversions are exact, a zero divisor raises
  (\<open>InvalidOperation\<close> for 0/0, \<open>DivisionByZero\<close> otherwise), and the quotient is
  rounded to 28 significant digits.
\<close>

definition decimal_divide :: "rat \<Rightarrow> rat \<Rightarrow> rat res" where
  "decimal_divide a b =
     (if b = 0 then Inl (if a = 0 then InvalidOperation else DivisionByZero)
      else Inr (round_sig 28 (a / b)))"

text \<open>
  Lines 62 and 63 of \<open>place_buy_order\<close>:
  \<open>quantity = Decimal(total_amount) / Decimal(price)\<close>, then
  \<open>quantity = float(quantity.quantize(Decimal('0.00000001'), rounding=ROUND_DOWN))\<close>.
\<close>

definition decimal_quantity :: "rat \<Rightarrow> rat \<Rightarrow> rat res" where
  "decimal_quantity total_amount price =
     (case decimal_divide total_amount price of
        Inl e \<Rightarrow> Inl e
      | Inr q \<Rightarrow> (case quantize q of Inl e \<Rightarrow> Inl e | Inr d \<Rightarrow> Inr (to_double d)))"

text \<open>A string is truthy when it is not empty; \<open>None\<close> is falsy.\<close>

definition truthy :: "string option \<Rightarrow> bool" where
  "truthy v = (case v of None \<Rightarrow> False | Some s \<Rightarrow> s \<noteq> [])"

text \<open>\<open>if order_id: self.active_orders[order_id] = {...}\<close>\<close>

definition store_order ::
  "string option \<Rightarrow> side \<Rightarrow> rat \<Rightarrow> rat \<Rightarrow> int \<Rightarrow> trader \<Rightarrow> trader" where
  "store_order order_id sd price quantity now tr =
     (case order_id of
        None \<Rightarrow> tr
      | Some oid \<Rightarrow>
          if oid \<noteq> [] then
            tr\<lparr>active_orders :=
                 AList.update oid
                   \<lparr>order_type = sd, order_price = price, order_quantity = quantity,
                    order_total = price * quantity, order_status = Some ''placed'',
                    order_timestamp = now\<rparr>
                   (active_orders tr)\<rparr>
          else tr)"

text \<open>
  \<open>place_buy_order\<close>, given the reply of \<open>api.place_order\<close> (it raises, or it returns
  an order whose \<open>id\<close> may be missing) and the clock: the result or the exception
  re-raised to the caller, the trader afterwards, and the calls made.
\<close>

definition place_buy_order ::
  "rat \<Rightarrow> rat option \<Rightarrow> rat option \<Rightarrow> string option res \<Rightarrow> int \<Rightarrow> trader
     \<Rightarrow> string option res \<times> trader \<times> event list" where
  "place_buy_order price quantity total_amount reply now tr =
     (let computed =
            (case (total_amount, quantity) of
               (Some ta, None) \<Rightarrow> map_sum id Some (decimal_quantity ta price)
             | _ \<Rightarrow> Inr quantity)
      in case computed of
           Inl e \<Rightarrow> (Inl e, tr, [])
         | Inr None \<Rightarrow> (Inl ValueError, tr, [])
         | Inr (Some q) \<Rightarrow>
             (case reply of
                Inl e \<Rightarrow> (Inl e, tr, [ApiPlaceOrder Buy (trading_pair tr) price q])
              | Inr order_id \<Rightarrow>
                  (Inr order_id,
                   store_order order_id Buy price q now tr,
                   [ApiPlaceOrder Buy (trading_pair tr) price q,
                    SendTradeNotification Buy (trading_pair tr) price q (price * q) order_id])))"

definition place_sell_order ::
  "rat \<Rightarrow> rat \<Rightarrow> string option res \<Rightarrow> int \<Rightarrow> trader
     \<Rightarrow> string option res \<times> trader \<times> event list" where
  "place_sell_order price quantity reply now tr =
     (case reply of
        Inl e \<Rightarrow> (Inl e, tr, [ApiPlaceOrder Sell (trading_pair tr) price quantity])
      | Inr order_id \<Rightarrow>
          (Inr order_id,
           store_order order_id Sell price quantity now tr,
           [ApiPlaceOrder Sell (trading_pair tr) price quantity,
            SendTradeNotification Sell (trading_pair tr) price quantity (price * quantity)
              order_id]))"

text \<open>
  \<open>Trader.get_order_status\<close>, given the reply of \<open>api.get_order_status\<close> (it raises,
  or it returns a dict whose \<open>status\<close> may be missing): a known order takes the status.
\<close>

definition get_order_status ::
  "string \<Rightarrow> string option res \<Rightarrow> trader \<Rightarrow> string option res \<times> trader \<times> event list" where
  "get_order_status order_id reply tr =
     (case reply of
        Inl e \<Rightarrow> (Inl e, tr, [ApiGetOrderStatus order_id])
      | Inr st \<Rightarrow>
          (Inr st,
           tr\<lparr>active_orders :=
                AList.map_entry order_id (\<lambda>r. r\<lparr>order_status := st\<rparr>) (active_orders tr)\<rparr>,
           [ApiGetOrderStatus order_id]))"

definition terminal :: "order_record \<Rightarrow> bool" where
  "terminal r = (order_status r \<in> {Some ''filled'', Some ''cancelled''})"

definition get_active_orders :: "trader \<Rightarrow> order_record list" where
  "get_active_orders tr = map snd (filter (\<lambda>(order_id, r). \<not> terminal r) (active_orders tr))"

section \<open>AutoTrader (scripts/auto_trader.py)\<close>

record auto_trader =
  trader :: trader
  buy_price :: rat
  sell_price :: rat
  in_position :: bool
  current_order_id :: "string option"
  buy_order_price :: "rat option"
  buy_order_quantity :: "rat option"

definition init_auto_trader :: "string \<Rightarrow> rat \<Rightarrow> rat \<Rightarrow> auto_trader" where
  "init_auto_trader pair bp sp =
     \<lparr>trader = \<lparr>trading_pair = pair, active_orders = []\<rparr>,
      buy_price = bp, sell_price = sp, in_position = False, current_order_id = None,
      buy_order_price = None, buy_order_quantity = None\<rparr>"

text \<open>What the exchange answers during one polling cycle, and the clock of that cycle.\<close>

record cycle_env =
  status_reply :: "string option res"
  balance_reply :: "raw_balance list res"
  order_reply :: "string option res"
  clock :: int

text \<open>The branches on \<open>status\<close> after a successful poll (lines 46 to 60).\<close>

definition resolve_status :: "string option \<Rightarrow> auto_trader \<Rightarrow> auto_trader \<times> event list" where
  "resolve_status status s =
     (if status = Some ''filled'' then
        (if \<not> in_position s then
           (s\<lparr>in_position := True, current_order_id := None\<rparr>,
            [SendMessage (BuyFilled (buy_order_price s))])
         else
           (s\<lparr>in_position := False, current_order_id := None\<rparr>,
            [SendMessage (SellFilled (sell_price s))]))
      else if status = Some ''cancelled'' then (s\<lparr>current_order_id := None\<rparr>, [])
      else (s, []))"

text \<open>
  The first block of \<open>check_price_and_trade\<close> (lines 41 to 67). The flag tells
  whether the method returns at line 64.
\<close>

definition poll_pending :: "cycle_env \<Rightarrow> auto_trader \<Rightarrow> bool \<times> auto_trader \<times> event list" where
  "poll_pending env s =
     (if truthy (current_order_id s) then
        (case current_order_id s of
           None \<Rightarrow> (False, s, [])
         | Some oid \<Rightarrow>
             (case get_order_status oid (status_reply env) (trader s) of
                (Inl e, tr', evs) \<Rightarrow> (False, s\<lparr>trader := tr'\<rparr>, evs)
              | (Inr status, tr', evs) \<Rightarrow>
                  (let r = resolve_status status (s\<lparr>trader := tr'\<rparr>)
                   in (status \<in> {Some ''open'', Some ''partially_filled''},
                       fst r, evs @ snd r))))
      else (False, s, []))"

text \<open>The buy branch (lines 73 to 97).\<close>

definition try_buy :: "rat \<Rightarrow> cycle_env \<Rightarrow> auto_trader \<Rightarrow> auto_trader \<times> event list" where
  "try_buy cur env s =
     (case get_account_balance (balance_reply env) (trader s) of
        Inl e \<Rightarrow> (s, [ApiGetBalance])
      | Inr bal \<Rightarrow>
          (let available_fiat = available (fiat bal);
               total_amount = min (to_double (available_fiat * to_double 0.95)) 1000
           in if total_amount > 10 then
                (case place_buy_order cur None (Some total_amount) (order_reply env) (clock env)
                        (trader s) of
                   (Inl e, tr', evs) \<Rightarrow> (s\<lparr>trader := tr'\<rparr>, ApiGetBalance # evs)
                 | (Inr order_id, tr', evs) \<Rightarrow>
                     (s\<lparr>trader := tr', current_order_id := order_id,
                        buy_order_price := Some cur,
                        buy_order_quantity := Some (total_amount / cur)\<rparr>,
                      ApiGetBalance # evs @ [SendMessage (BuyPlaced cur)]))
              else (s, [ApiGetBalance])))"

text \<open>The sell branch (lines 102 to 121).\<close>

definition try_sell :: "rat \<Rightarrow> cycle_env \<Rightarrow> auto_trader \<Rightarrow> auto_trader \<times> event list" where
  "try_sell cur env s =
     (case get_account_balance (balance_reply env) (trader s) of
        Inl e \<Rightarrow> (s, [ApiGetBalance])
      | Inr bal \<Rightarrow>
          (let available_crypto = available (crypto bal)
           in if available_crypto > 0 then
                (case place_sell_order cur available_crypto (order_reply env) (clock env)
                        (trader s) of
                   (Inl e, tr', evs) \<Rightarrow> (s\<lparr>trader := tr'\<rparr>, ApiGetBalance # evs)
                 | (Inr order_id, tr', evs) \<Rightarrow>
                     (s\<lparr>trader := tr', current_order_id := order_id\<rparr>,
                      ApiGetBalance # evs @ [SendMessage (SellPlaced cur)]))
              else (s, [ApiGetBalance])))"

text \<open>The second block of \<open>check_price_and_trade\<close> (lines 70 to 121).\<close>

definition place_orders :: "rat \<Rightarrow> cycle_env \<Rightarrow> auto_trader \<Rightarrow> auto_trader \<times> event list" where
  "place_orders cur env s =
     (if \<not> in_position s \<and> \<not> truthy (current_order_id s) then
        (if cur \<le> buy_price s then try_buy cur env s else (s, []))
      else if in_position s \<and> \<not> truthy (current_order_id s) then
        (if cur \<ge> sell_price s then try_sell cur env s else (s, []))
      else (s, []))"

definition check_price_and_trade ::
  "rat \<Rightarrow> cycle_env \<Rightarrow> auto_trader \<Rightarrow> auto_trader \<times> event list" where
  "check_price_and_trade cur env s =
     (case poll_pending env s of
        (True, s', evs) \<Rightarrow> (s', evs)
      | (False, s', evs) \<Rightarrow>
          (let r = place_orders cur env s' in (fst r, evs @ snd r)))"

text \<open>Polling cycles one after the other, each with its price and its replies.\<close>

fun run_cycles :: "(rat \<times> cycle_env) list \<Rightarrow> auto_trader \<Rightarrow> auto_trader" where
  "run_cycles [] s = s"
| "run_cycles (c # cs) s = run_cycles cs (fst (check_price_and_trade (fst c) (snd c) s))"

text \<open>The four states of the trading state machine.\<close>

datatype machine_state = FLAT | BUY_PENDING | LONG | SELL_PENDING

definition machine_state_of :: "auto_trader \<Rightarrow> machine_state" where
  "machine_state_of s =
     (if truthy (current_order_id s)
      then (if in_position s then SELL_PENDING else BUY_PENDING)
      else (if in_position s then LONG else FLAT))"

section \<open>Reference notions used in the statements\<close>

text \<open>
  The most recent \<open>n\<close> samples of a history, in the words of the specification of
  \<open>get_price_history\<close>: its last \<open>n\<close> elements, all of them when it holds fewer.
\<close>

definition most_recent :: "nat \<Rightarrow> 'a list \<Rightarrow> 'a list" where
  "most_recent n xs = drop (length xs - n) xs"

text \<open>The calls of \<open>api.place_order\<close> among the calls of a cycle.\<close>

definition is_placement :: "event \<Rightarrow> bool" where
  "is_placement ev = (case ev of ApiPlaceOrder sd m p q \<Rightarrow> True | _ \<Rightarrow> False)"

text \<open>The trader as the first block of \<open>check_price_and_trade\<close> leaves it.\<close>

definition after_poll :: "cycle_env \<Rightarrow> auto_trader \<Rightarrow> auto_trader" where
  "after_poll env s = fst (snd (poll_pending env s))"

text \<open>
  Replies of a cycle for the examples: the account holds the given amount of INR, the
  exchange accepts an order under the id \<open>o1\<close>, and answers a status poll as given.
\<close>

definition example_env :: "string option res \<Rightarrow> rat \<Rightarrow> cycle_env" where
  "example_env st fiat_balance =
     \<lparr>status_reply = st,
      balance_reply = Inr [\<lparr>raw_currency = Some ''INR'', raw_balance = Some fiat_balance,
                             raw_locked_balance = Some 0\<rparr>],
      order_reply = Inr (Some ''o1''),
      clock = 1700000000\<rparr>"

text \<open>A trader for the pair ELYINR that waits on the order \<open>o1\<close>.\<close>

definition pending_trader :: "bool \<Rightarrow> auto_trader" where
  "pending_trader pos =
     (init_auto_trader ''ELYINR'' 0.65 0.70)
       \<lparr>in_position := pos, current_order_id := Some ''o1''\<rparr>"

text \<open>
  What ties the tracked orders to the pending order id: the ids of the tracked orders are
  distinct and not empty, and an order that is neither filled nor cancelled is the
  pending one.
\<close>

definition tracked_ok :: "auto_trader \<Rightarrow> bool" where
  "tracked_ok s =
     (distinct (map fst (active_orders (trader s)))
      \<and> (\<forall>(oid, r) \<in> set (active_orders (trader s)).
            oid \<noteq> [] \<and> (\<not> terminal r \<longrightarrow> current_order_id s = Some oid)))"

text \<open>Ticks for the examples: the \<open>i\<close>-th fetch returns the price \<open>i\<close> at the time \<open>i\<close>.\<close>

definition example_ticks :: "nat \<Rightarrow> (ticker_reply \<times> int) list" where
  "example_ticks n = map (\<lambda>i. (Ticker (Some (of_nat i)), int i)) [0..<n]"

text \<open>
  The conditions of \<open>check_alerts\<close> for an entry of the thresholds, by name: the one
  that triggers, and the one of the hysteresis band that re-arms. An alert fired in a
  call is identified by its name and threshold.
\<close>

definition trigger_condition :: "string \<times> rat \<Rightarrow> rat \<Rightarrow> bool" where
  "trigger_condition item p =
     ((lower (fst item) = ''high'' \<and> p \<ge> snd item) \<or> (lower (fst item) = ''low'' \<and> p \<le> snd item))"

definition rearms :: "string \<times> rat \<Rightarrow> rat \<Rightarrow> bool" where
  "rearms item p =
     ((lower (fst item) = ''high'' \<and> p < snd item * 0.98)
      \<or> (lower (fst item) = ''low'' \<and> p > snd item * 1.02))"

definition alert_key :: "alert \<Rightarrow> string \<times> rat" where
  "alert_key al = (alert_type al, alert_threshold al)"

definition fired :: "string \<times> rat \<Rightarrow> alert list \<Rightarrow> bool" where
  "fired item out = (item \<in> alert_key ` set out)"

text \<open>
  A trader for the pair ELYINR whose buy and sell prices are the doubles of the literals
  0.65 and 0.70.
\<close>

definition double_trader :: auto_trader where
  "double_trader = init_auto_trader ''ELYINR'' (to_double 0.65) (to_double 0.70)"

section \<open>Properties of the tracker\<close>

text \<open>
  C7. \<open>get_current_price\<close> never raises to its caller. A successful fetch returns
  the fetched \<open>last_price\<close> and caches it; a failed fetch returns the cached price, or
  0 when nothing was cached, and leaves the tracker as it is; a failing call made right
  after any call returns the value that call returned.
\<close>

theorem get_current_price_never_raises:
  "(\<exists>v. fst (get_current_price r t) = Inr v)
   \<and> fst (get_current_price (Ticker (Some p)) t) = Inr p
   \<and> current_price (snd (get_current_price (Ticker (Some p)) t)) = Some p
   \<and> fst (get_current_price (TickerRaises e) t)
       = Inr (case current_price t of None \<Rightarrow> 0 | Some c \<Rightarrow> c)
   \<and> snd (get_current_price (TickerRaises e) t) = t
   \<and> fst (get_current_price (TickerRaises e') (snd (get_current_price r t)))
       = fst (get_current_price r t)"
  by (cases r; cases "current_price t")
     (auto simp: get_current_price_def fetch_last_price_def cached_or_zero_def
           split: option.splits)

theorem get_current_price_never_raises_witness:
  "fst (get_current_price (TickerRaises RequestException)
          (snd (get_current_price (Ticker (Some 0.66)) (init_tracker :: unit price_tracker))))
     = Inr 0.66
   \<and> fst (get_current_price (TickerRaises RequestException) (init_tracker :: unit price_tracker))
     = Inr 0"
  using get_current_price_never_raises
          [of "Ticker (Some 0.66)" "init_tracker :: unit price_tracker" "0.66"
              RequestException RequestException]
  by (simp add: init_tracker_def)

text \<open>
  C8, as stated: \<open>get_price_history(limit)\<close> returns exactly the most recent \<open>limit\<close>
  samples for every specified limit. It does not for the limit 0, which the test
  \<open>if limit and ...\<close> takes as unspecified: the whole history comes back.
\<close>

theorem get_price_history_limit_zero_counterexample:
  "get_price_history (Some 0)
     (\<lparr>current_price = None,
       price_history = [\<lparr>timestamp = 1, sample_price = 0.64\<rparr>,
                        \<lparr>timestamp = 2, sample_price = 0.65\<rparr>],
       callbacks = []\<rparr> :: unit price_tracker)
   \<noteq> most_recent 0 [\<lparr>timestamp = 1, sample_price = 0.64\<rparr>,
                     \<lparr>timestamp = 2, sample_price = 0.65\<rparr>]"
  by (simp add: get_price_history_def most_recent_def)

text \<open>
  C8, amended: for every history and every limit of at least 1,
  \<open>get_price_history(limit)\<close> returns exactly the most recent \<open>limit\<close> samples (the whole
  history when it holds no more than \<open>limit\<close>), and it returns the whole history when
  the limit is unspecified.
\<close>

theorem get_price_history_positive_limit:
  "(0 < l \<longrightarrow> get_price_history (Some l) t = most_recent (nat l) (price_history t))
   \<and> get_price_history None t = price_history t"
  by (auto simp: get_price_history_def most_recent_def slice_from_def max_def nat_diff_distrib')

theorem get_price_history_positive_limit_witness:
  "(0::int) < 1 \<and>
   get_price_history (Some 1)
     (\<lparr>current_price = None,
       price_history = [\<lparr>timestamp = 1, sample_price = 0.64\<rparr>,
                        \<lparr>timestamp = 2, sample_price = 0.65\<rparr>],
       callbacks = []\<rparr> :: unit price_tracker)
   = [\<lparr>timestamp = 2, sample_price = 0.65\<rparr>]"
  using get_price_history_positive_limit
          [of 1 "\<lparr>current_price = None,
                  price_history = [\<lparr>timestamp = 1, sample_price = 0.64\<rparr>,
                                   \<lparr>timestamp = 2, sample_price = 0.65\<rparr>],
                  callbacks = []\<rparr> :: unit price_tracker"]
  by (simp add: most_recent_def)

section \<open>Properties of the trader\<close>

text \<open>
  C10. \<open>place_buy_order\<close> with neither \<open>quantity\<close> nor \<open>total_amount\<close> raises
  \<open>ValueError\<close> before any call of the exchange: no call is made, \<open>active_orders\<close> is as
  before, and no trade notification is sent.
\<close>

theorem place_buy_order_without_amounts:
  "place_buy_order price None None reply now tr = (Inl ValueError, tr, [])"
  by (simp add: place_buy_order_def)

theorem place_buy_order_without_amounts_witness:
  "place_buy_order 0.65 None None (Inr (Some ''o1'')) 5
     \<lparr>trading_pair = ''ELYINR'', active_orders = []\<rparr>
   = (Inl ValueError, \<lparr>trading_pair = ''ELYINR'', active_orders = []\<rparr>, [])"
  using place_buy_order_without_amounts
          [of "0.65" "Inr (Some ''o1'')" 5 "\<lparr>trading_pair = ''ELYINR'', active_orders = []\<rparr>"]
  by simp

section \<open>Properties of one polling cycle\<close>

lemma poll_pending_idle:
  "\<not> truthy (current_order_id s) \<Longrightarrow> poll_pending env s = (False, s, [])"
  by (simp add: poll_pending_def)

lemma poll_pending_reply:
  assumes "current_order_id s = Some oid" "oid \<noteq> []" "status_reply env = Inr status"
  shows "poll_pending env s =
           (status \<in> {Some ''open'', Some ''partially_filled''},
            fst (resolve_status status
                   (s\<lparr>trader := (trader s)\<lparr>active_orders :=
                        AList.map_entry oid (\<lambda>r. r\<lparr>order_status := status\<rparr>)
                          (active_orders (trader s))\<rparr>\<rparr>)),
            ApiGetOrderStatus oid #
            snd (resolve_status status
                   (s\<lparr>trader := (trader s)\<lparr>active_orders :=
                        AList.map_entry oid (\<lambda>r. r\<lparr>order_status := status\<rparr>)
                          (active_orders (trader s))\<rparr>\<rparr>)))"
  using assms by (simp add: poll_pending_def truthy_def get_order_status_def Let_def)

lemma poll_pending_raises:
  assumes "current_order_id s = Some oid" "oid \<noteq> []" "status_reply env = Inl e"
  shows "poll_pending env s = (False, s, [ApiGetOrderStatus oid])"
  using assms by (simp add: poll_pending_def truthy_def get_order_status_def)

lemma poll_pending_no_placement: "filter is_placement (snd (snd (poll_pending env s))) = []"
  by (auto simp: poll_pending_def get_order_status_def resolve_status_def is_placement_def Let_def
           split: option.splits sum.splits)

lemma cycle_split:
  "\<not> fst (poll_pending env s) \<Longrightarrow>
     check_price_and_trade cur env s =
       (fst (place_orders cur env (after_poll env s)),
        snd (snd (poll_pending env s)) @ snd (place_orders cur env (after_poll env s)))"
  by (auto simp: check_price_and_trade_def after_poll_def Let_def split: prod.splits)

lemma cycle_returns_early:
  "fst (poll_pending env s) \<Longrightarrow>
     check_price_and_trade cur env s = (after_poll env s, snd (snd (poll_pending env s)))"
  by (auto simp: check_price_and_trade_def after_poll_def Let_def split: prod.splits)

lemma place_orders_pending:
  "truthy (current_order_id s) \<Longrightarrow> place_orders cur env s = (s, [])"
  by (simp add: place_orders_def)

text \<open>
  C4. With a pending order id and a status reply: \<open>filled\<close> while not in position sets
  \<open>in_position\<close> and clears the id (BUY_PENDING to LONG); \<open>filled\<close> while in position
  resets \<open>in_position\<close> and clears the id (SELL_PENDING to FLAT); \<open>cancelled\<close> clears
  the id and keeps \<open>in_position\<close>; \<open>open\<close> and \<open>partially_filled\<close> leave both as they
  are and end the cycle after the poll, the only call made. In the other cases the
  cycle goes on with the placement block from the resolved state.
\<close>

theorem pending_order_resolution:
  assumes "current_order_id s = Some oid" and "oid \<noteq> []"
    and "status_reply env = Inr status"
  shows "(status = Some ''filled'' \<and> \<not> in_position s \<longrightarrow>
            in_position (after_poll env s) \<and> current_order_id (after_poll env s) = None
            \<and> machine_state_of s = BUY_PENDING \<and> machine_state_of (after_poll env s) = LONG)
       \<and> (status = Some ''filled'' \<and> in_position s \<longrightarrow>
            \<not> in_position (after_poll env s) \<and> current_order_id (after_poll env s) = None
            \<and> machine_state_of s = SELL_PENDING \<and> machine_state_of (after_poll env s) = FLAT)
       \<and> (status = Some ''cancelled'' \<longrightarrow>
            in_position (after_poll env s) = in_position s
            \<and> current_order_id (after_poll env s) = None
            \<and> machine_state_of (after_poll env s) = (if in_position s then LONG else FLAT))
       \<and> (status \<in> {Some ''open'', Some ''partially_filled''} \<longrightarrow>
            in_position (fst (check_price_and_trade cur env s)) = in_position s
            \<and> current_order_id (fst (check_price_and_trade cur env s)) = current_order_id s
            \<and> machine_state_of (fst (check_price_and_trade cur env s)) = machine_state_of s
            \<and> snd (check_price_and_trade cur env s) = [ApiGetOrderStatus oid])
       \<and> (status \<notin> {Some ''open'', Some ''partially_filled''} \<longrightarrow>
            fst (check_price_and_trade cur env s) = fst (place_orders cur env (after_poll env s)))"
proof -
  have resolved: "(status = Some ''filled'' \<and> \<not> in_position s \<longrightarrow>
            in_position (after_poll env s) \<and> current_order_id (after_poll env s) = None
            \<and> machine_state_of s = BUY_PENDING \<and> machine_state_of (after_poll env s) = LONG)
       \<and> (status = Some ''filled'' \<and> in_position s \<longrightarrow>
            \<not> in_position (after_poll env s) \<and> current_order_id (after_poll env s) = None
            \<and> machine_state_of s = SELL_PENDING \<and> machine_state_of (after_poll env s) = FLAT)
       \<and> (status = Some ''cancelled'' \<longrightarrow>
            in_position (after_poll env s) = in_position s
            \<and> current_order_id (after_poll env s) = None
            \<and> machine_state_of (after_poll env s) = (if in_position s then LONG else FLAT))"
    using assms
    by (auto simp: after_poll_def poll_pending_reply resolve_status_def machine_state_of_def
                   truthy_def)
  have waiting: "status \<in> {Some ''open'', Some ''partially_filled''} \<longrightarrow>
            in_position (fst (check_price_and_trade cur env s)) = in_position s
            \<and> current_order_id (fst (check_price_and_trade cur env s)) = current_order_id s
            \<and> machine_state_of (fst (check_price_and_trade cur env s)) = machine_state_of s
            \<and> snd (check_price_and_trade cur env s) = [ApiGetOrderStatus oid]"
    using assms
    by (auto simp: poll_pending_reply check_price_and_trade_def resolve_status_def
                   machine_state_of_def truthy_def)
  have goes_on: "status \<notin> {Some ''open'', Some ''partially_filled''} \<longrightarrow>
            fst (check_price_and_trade cur env s) = fst (place_orders cur env (after_poll env s))"
    using assms by (simp add: cycle_split poll_pending_reply)
  show ?thesis using resolved waiting goes_on by blast
qed

theorem pending_order_resolution_witness:
  "current_order_id (pending_trader False) = Some ''o1''
   \<and> current_order_id (pending_trader True) = Some ''o1''
   \<and> ''o1'' \<noteq> []
   \<and> machine_state_of (after_poll (example_env (Inr (Some ''filled'')) 0) (pending_trader False))
       = LONG
   \<and> machine_state_of (after_poll (example_env (Inr (Some ''filled'')) 0) (pending_trader True))
       = FLAT
   \<and> machine_state_of (after_poll (example_env (Inr (Some ''cancelled'')) 0) (pending_trader True))
       = LONG
   \<and> snd (check_price_and_trade 0.60 (example_env (Inr (Some ''open'')) 2000)
             (pending_trader False))
       = [ApiGetOrderStatus ''o1'']"
proof -
  have ids: "current_order_id (pending_trader pos) = Some ''o1''" "''o1'' \<noteq> []"
            "in_position (pending_trader pos) = pos" for pos
    by (simp_all add: pending_trader_def init_auto_trader_def)
  have st: "status_reply (example_env (Inr x) b) = Inr x" for x b
    by (simp add: example_env_def)
  show ?thesis
    using pending_order_resolution
            [where s = "pending_trader False" and oid = "''o1''" and status = "Some ''filled''"
               and env = "example_env (Inr (Some ''filled'')) 0" and cur = "0.60"]
          pending_order_resolution
            [where s = "pending_trader True" and oid = "''o1''" and status = "Some ''filled''"
               and env = "example_env (Inr (Some ''filled'')) 0" and cur = "0.60"]
          pending_order_resolution
            [where s = "pending_trader True" and oid = "''o1''" and status = "Some ''cancelled''"
               and env = "example_env (Inr (Some ''cancelled'')) 0" and cur = "0.60"]
          pending_order_resolution
            [where s = "pending_trader False" and oid = "''o1''" and status = "Some ''open''"
               and env = "example_env (Inr (Some ''open'')) 2000" and cur = "0.60"]
          ids st
    by simp
qed

subsection \<open>Failed calls\<close>

lemma place_buy_order_placements:
  "place_buy_order p q ta r n tr = (res, tr', evs) \<Longrightarrow> length (filter is_placement evs) \<le> Suc 0"
  by (auto simp: place_buy_order_def is_placement_def Let_def split: option.splits sum.splits)

lemma place_sell_order_placements:
  "place_sell_order p q r n tr = (res, tr', evs) \<Longrightarrow> length (filter is_placement evs) \<le> Suc 0"
  by (auto simp: place_sell_order_def is_placement_def Let_def split: option.splits sum.splits)

lemma try_buy_placements: "length (filter is_placement (snd (try_buy cur env s))) \<le> Suc 0"
  by (auto simp: try_buy_def Let_def is_placement_def split: sum.splits prod.splits
           dest: place_buy_order_placements)

lemma try_sell_placements: "length (filter is_placement (snd (try_sell cur env s))) \<le> Suc 0"
  by (auto simp: try_sell_def Let_def is_placement_def split: sum.splits prod.splits
           dest: place_sell_order_placements)

lemma place_orders_placements:
  "length (filter is_placement (snd (place_orders cur env s))) \<le> Suc 0"
  by (simp add: place_orders_def try_buy_placements try_sell_placements)

lemma cycle_placements:
  "length (filter is_placement (snd (check_price_and_trade cur env s))) \<le> Suc 0"
proof (cases "fst (poll_pending env s)")
  case True
  then show ?thesis by (simp add: cycle_returns_early poll_pending_no_placement)
next
  case False
  then show ?thesis
    using place_orders_placements [of cur env "after_poll env s"]
    by (simp add: cycle_split poll_pending_no_placement)
qed

lemma try_buy_balance_raises:
  "balance_reply env = Inl e \<Longrightarrow> try_buy cur env s = (s, [ApiGetBalance])"
  by (simp add: try_buy_def get_account_balance_def)

lemma try_sell_balance_raises:
  "balance_reply env = Inl e \<Longrightarrow> try_sell cur env s = (s, [ApiGetBalance])"
  by (simp add: try_sell_def get_account_balance_def)

lemma try_buy_order_raises:
  "order_reply env = Inl e \<Longrightarrow> fst (try_buy cur env s) = s"
  by (auto simp: try_buy_def place_buy_order_def Let_def split: sum.splits prod.splits option.splits)

lemma try_sell_order_raises:
  "order_reply env = Inl e \<Longrightarrow> fst (try_sell cur env s) = s"
  by (auto simp: try_sell_def place_sell_order_def Let_def split: sum.splits prod.splits option.splits)

lemma place_orders_balance_raises:
  "balance_reply env = Inl e \<Longrightarrow>
     fst (place_orders cur env s) = s \<and> filter is_placement (snd (place_orders cur env s)) = []"
  by (simp add: place_orders_def try_buy_balance_raises try_sell_balance_raises is_placement_def)

lemma place_orders_order_raises:
  "order_reply env = Inl e \<Longrightarrow> fst (place_orders cur env s) = s"
  by (simp add: place_orders_def try_buy_order_raises try_sell_order_raises)

lemma try_buy_zero_price: "try_buy 0 env s = (s, [ApiGetBalance])"
  by (auto simp: try_buy_def place_buy_order_def decimal_quantity_def decimal_divide_def Let_def
           split: sum.splits)

lemma place_orders_zero_price:
  "\<not> in_position s \<Longrightarrow>
     fst (place_orders 0 env s) = s \<and> filter is_placement (snd (place_orders 0 env s)) = []"
  by (simp add: place_orders_def try_buy_zero_price is_placement_def)

lemma map_entry_keys: "map fst (AList.map_entry k f xs) = map fst xs"
  by (induction xs) auto

lemma after_poll_keys:
  "map fst (active_orders (trader (after_poll env s))) = map fst (active_orders (trader s))"
  by (auto simp: after_poll_def poll_pending_def get_order_status_def resolve_status_def
                 map_entry_keys Let_def
           split: option.splits sum.splits)

text \<open>
  C5. A call that raises never advances the state machine. When the status poll raises,
  the cycle leaves the trader exactly as it was and makes no other call. When the balance
  fetch raises, or \<open>api.place_order\<close> raises, or the quantity cannot be computed (price
  0 while flat), the trader after the cycle is the trader as it was before that call,
  that is, as the first block left it; the first block records no order; and a cycle
  calls \<open>api.place_order\<close> at most once.
\<close>

theorem failed_call_keeps_state:
  "(current_order_id s = Some oid \<and> oid \<noteq> [] \<and> status_reply env = Inl e \<longrightarrow>
      check_price_and_trade cur env s = (s, [ApiGetOrderStatus oid]))
   \<and> (balance_reply env = Inl e \<longrightarrow>
      fst (check_price_and_trade cur env s) = after_poll env s
      \<and> filter is_placement (snd (check_price_and_trade cur env s)) = [])
   \<and> (order_reply env = Inl e \<longrightarrow>
      fst (check_price_and_trade cur env s) = after_poll env s)
   \<and> (\<not> in_position (after_poll env s) \<longrightarrow>
      fst (check_price_and_trade 0 env s) = after_poll env s
      \<and> filter is_placement (snd (check_price_and_trade 0 env s)) = [])
   \<and> map fst (active_orders (trader (after_poll env s))) = map fst (active_orders (trader s))
   \<and> length (filter is_placement (snd (check_price_and_trade cur env s))) \<le> 1"
proof -
  have poll: "current_order_id s = Some oid \<and> oid \<noteq> [] \<and> status_reply env = Inl e \<longrightarrow>
      check_price_and_trade cur env s = (s, [ApiGetOrderStatus oid])"
    by (auto simp: check_price_and_trade_def poll_pending_raises place_orders_pending truthy_def)
  have bal: "balance_reply env = Inl e \<longrightarrow>
      fst (check_price_and_trade cur env s) = after_poll env s
      \<and> filter is_placement (snd (check_price_and_trade cur env s)) = []"
    using poll_pending_no_placement [of env s]
    by (cases "fst (poll_pending env s)")
       (simp_all add: cycle_split cycle_returns_early place_orders_balance_raises)
  have ord: "order_reply env = Inl e \<longrightarrow>
      fst (check_price_and_trade cur env s) = after_poll env s"
    by (cases "fst (poll_pending env s)")
       (simp_all add: cycle_split cycle_returns_early place_orders_order_raises)
  have zero: "\<not> in_position (after_poll env s) \<longrightarrow>
      fst (check_price_and_trade 0 env s) = after_poll env s
      \<and> filter is_placement (snd (check_price_and_trade 0 env s)) = []"
    using poll_pending_no_placement [of env s]
    by (cases "fst (poll_pending env s)")
       (simp_all add: cycle_split cycle_returns_early place_orders_zero_price)
  have once: "length (filter is_placement (snd (check_price_and_trade cur env s))) \<le> 1"
    using cycle_placements [of cur env s] by simp
  show ?thesis using poll bal ord zero once after_poll_keys by blast
qed

theorem failed_call_keeps_state_witness:
  "current_order_id (pending_trader False) = Some ''o1'' \<and> ''o1'' \<noteq> []
   \<and> status_reply (example_env (Inl RequestException) 2000) = Inl RequestException
   \<and> check_price_and_trade 0.60 (example_env (Inl RequestException) 2000) (pending_trader False)
       = (pending_trader False, [ApiGetOrderStatus ''o1''])
   \<and> balance_reply ((example_env (Inr None) 2000)\<lparr>balance_reply := Inl RequestException\<rparr>)
       = Inl RequestException
   \<and> fst (check_price_and_trade 0.60
             ((example_env (Inr None) 2000)\<lparr>balance_reply := Inl RequestException\<rparr>)
             (init_auto_trader ''ELYINR'' 0.65 0.70))
       = init_auto_trader ''ELYINR'' 0.65 0.70
   \<and> order_reply ((example_env (Inr None) 2000)\<lparr>order_reply := Inl RequestException\<rparr>)
       = Inl RequestException
   \<and> fst (check_price_and_trade 0.60
             ((example_env (Inr None) 2000)\<lparr>order_reply := Inl RequestException\<rparr>)
             (init_auto_trader ''ELYINR'' 0.65 0.70))
       = init_auto_trader ''ELYINR'' 0.65 0.70"
proof -
  let ?s = "init_auto_trader ''ELYINR'' 0.65 0.70"
  let ?eb = "(example_env (Inr None) 2000)\<lparr>balance_reply := Inl RequestException\<rparr>"
  let ?eo = "(example_env (Inr None) 2000)\<lparr>order_reply := Inl RequestException\<rparr>"
  have ids: "current_order_id (pending_trader False) = Some ''o1''" "''o1'' \<noteq> []"
    by (simp_all add: pending_trader_def init_auto_trader_def)
  have replies: "status_reply (example_env (Inl RequestException) 2000) = Inl RequestException"
      "balance_reply ?eb = Inl RequestException" "order_reply ?eo = Inl RequestException"
    by (simp_all add: example_env_def)
  have idle: "after_poll env ?s = ?s" for env
    by (simp add: after_poll_def poll_pending_idle init_auto_trader_def truthy_def)
  show ?thesis
    using failed_call_keeps_state
            [of "pending_trader False" "''o1''" "example_env (Inl RequestException) 2000"
                RequestException "0.60"]
          failed_call_keeps_state [of ?s "''o1''" ?eb RequestException "0.60"]
          failed_call_keeps_state [of ?s "''o1''" ?eo RequestException "0.60"]
          ids replies idle
    by simp
qed

subsection \<open>Truncation toward zero\<close>

lemma round_down_bounds:
  "\<bar>of_int (round_down x) :: rat\<bar> \<le> \<bar>x\<bar> \<and> \<bar>x - of_int (round_down x)\<bar> < 1"
proof (cases "x \<ge> 0")
  case True
  have "(0::rat) \<le> of_int \<lfloor>x\<rfloor>" using True by simp
  moreover have "of_int \<lfloor>x\<rfloor> \<le> x" "x < of_int \<lfloor>x\<rfloor> + 1" by linarith+
  ultimately have "\<bar>of_int \<lfloor>x\<rfloor> :: rat\<bar> \<le> \<bar>x\<bar> \<and> \<bar>x - of_int \<lfloor>x\<rfloor>\<bar> < 1"
    by linarith
  then show ?thesis using True by (simp only: round_down_def if_True)
next
  case False
  have "of_int \<lceil>x\<rceil> \<le> (0::rat)" using False by simp
  moreover have "x \<le> of_int \<lceil>x\<rceil>" "of_int \<lceil>x\<rceil> < x + 1" by linarith+
  ultimately have "\<bar>of_int \<lceil>x\<rceil> :: rat\<bar> \<le> \<bar>x\<bar> \<and> \<bar>x - of_int \<lceil>x\<rceil>\<bar> < 1"
    by linarith
  then show ?thesis using False by (simp only: round_down_def if_False)
qed

lemma quantize_down_bounds:
  "\<bar>quantize_down q\<bar> \<le> \<bar>q\<bar> \<and> \<bar>q - quantize_down q\<bar> < 1 / 10 ^ 8"
proof -
  let ?x = "q * 10 ^ 8"
  have a: "\<bar>of_int (round_down ?x) :: rat\<bar> \<le> \<bar>?x\<bar>" and b: "\<bar>?x - of_int (round_down ?x)\<bar> < 1"
    using round_down_bounds [of ?x] by auto
  have "\<bar>quantize_down q\<bar> = \<bar>of_int (round_down ?x) :: rat\<bar> / 10 ^ 8"
    by (simp add: quantize_down_def)
  also have "\<dots> \<le> \<bar>?x\<bar> / 10 ^ 8" using a by (simp add: divide_right_mono)
  also have "\<dots> = \<bar>q\<bar>" by (simp add: abs_mult)
  finally have 1: "\<bar>quantize_down q\<bar> \<le> \<bar>q\<bar>" .
  have "\<bar>q - quantize_down q\<bar> = \<bar>?x - of_int (round_down ?x)\<bar> / 10 ^ 8"
    by (simp add: quantize_down_def field_simps abs_if)
  also have "\<dots> < 1 / 10 ^ 8" using b by (simp add: divide_strict_right_mono)
  finally have 2: "\<bar>q - quantize_down q\<bar> < 1 / 10 ^ 8" .
  show ?thesis using 1 2 by blast
qed

subsection \<open>Rounding to significant digits and to doubles\<close>

lemma digit_count_bounds:
  "1 < b \<Longrightarrow> 0 < n \<Longrightarrow>
     0 < digit_count b n \<and> b ^ nat (digit_count b n - 1) \<le> n \<and> n < b ^ nat (digit_count b n)"
proof (induction b n rule: digit_count.induct)
  case (1 b n)
  show ?case
  proof (cases "n < b")
    case True
    then have "n div b = 0" using 1(3) by (simp add: div_pos_pos_trivial)
    then have "digit_count b n = 1"
      using 1(2,3) by (simp add: digit_count.simps [of b n] digit_count.simps [of b 0])
    then show ?thesis using True 1(3) by simp
  next
    case False
    then have pos: "0 < n div b" using 1(2) by (simp add: pos_imp_zdiv_pos_iff)
    let ?d = "digit_count b (n div b)"
    have ih: "0 < ?d" "b ^ nat (?d - 1) \<le> n div b" "n div b < b ^ nat ?d"
      using 1(1) [OF _ 1(2) pos] 1(2,3) by simp_all
    have d: "digit_count b n = 1 + ?d"
      using 1(2,3) by (simp add: digit_count.simps [of b n])
    have nat1: "nat ?d = Suc (nat (?d - 1))" using ih(1) by simp
    have nat2: "nat (1 + ?d) = Suc (nat ?d)" using ih(1) by simp
    have split: "n = b * (n div b) + n mod b" by simp
    have rem: "0 \<le> n mod b" "n mod b < b" using 1(2) by simp_all
    have lower: "b ^ nat ?d \<le> n"
    proof -
      have "b * b ^ nat (?d - 1) \<le> b * (n div b)" using ih(2) 1(2) by simp
      also have "\<dots> \<le> n" using split rem(1) by linarith
      finally show ?thesis by (simp only: nat1 power_Suc)
    qed
    have upper: "n < b ^ nat (1 + ?d)"
    proof -
      have "n div b + 1 \<le> b ^ nat ?d" using ih(3) by simp
      then have "b * (n div b + 1) \<le> b * b ^ nat ?d" using 1(2) by simp
      moreover have "n < b * (n div b + 1)"
      proof -
        have "n < b * (n div b) + b" using split rem(2) by linarith
        then show ?thesis by (simp add: distrib_left)
      qed
      ultimately show ?thesis by (simp add: nat2)
    qed
    show ?thesis using d ih(1) lower upper by simp
  qed
qed

lemma powi_nonneg: "0 \<le> e \<Longrightarrow> (of_int b :: rat) powi e = of_int (b ^ nat e)"
  by (simp add: power_int_def)

lemma ilog_bounds:
  assumes "1 < b" "0 < x"
  shows "(of_int b :: rat) powi (ilog b x) \<le> x \<and> x < of_int b powi (ilog b x + 1)"
proof (cases "x \<ge> 1")
  case True
  let ?n = "\<lfloor>x\<rfloor>"
  let ?d = "digit_count b ?n"
  have n: "0 < ?n" using True by simp
  have dc: "0 < ?d" "b ^ nat (?d - 1) \<le> ?n" "?n < b ^ nat ?d"
    using digit_count_bounds [OF assms(1) n] by simp_all
  have e: "ilog b x = ?d - 1" using True by (simp add: ilog_def)
  have "(of_int (b ^ nat (?d - 1)) :: rat) \<le> of_int ?n" using dc(2) by (simp only: of_int_le_iff)
  also have "\<dots> \<le> x" by simp
  finally have lower: "(of_int b :: rat) powi (?d - 1) \<le> x"
    using dc(1) by (simp add: powi_nonneg)
  have "?n + 1 \<le> b ^ nat ?d" using dc(3) by simp
  then have "(of_int (?n + 1) :: rat) \<le> of_int (b ^ nat ?d)" by (simp only: of_int_le_iff)
  moreover have "x < of_int (?n + 1)" by linarith
  ultimately have "x < (of_int (b ^ nat ?d) :: rat)" by linarith
  then have upper: "x < (of_int b :: rat) powi ?d" using dc(1) by (simp add: powi_nonneg)
  show ?thesis using lower upper e by simp
next
  case False
  let ?y = "1 / x"
  let ?k = "\<lceil>?y\<rceil> - 1"
  let ?d = "digit_count b ?k"
  have y: "1 < ?y" using False assms(2) by simp
  then have k: "0 < ?k" by linarith
  have dc: "0 < ?d" "b ^ nat (?d - 1) \<le> ?k" "?k < b ^ nat ?d"
    using digit_count_bounds [OF assms(1) k] by simp_all
  have e: "ilog b x = - ?d" using False by (simp add: ilog_def)
  have bpos: "(0 :: rat) < of_int (b ^ nat ?d)" "(0 :: rat) < of_int (b ^ nat (?d - 1))"
    using assms(1) by simp_all
  have "?k + 1 \<le> b ^ nat ?d" using dc(3) by simp
  then have "(of_int (?k + 1) :: rat) \<le> of_int (b ^ nat ?d)" by (simp only: of_int_le_iff)
  moreover have "?y \<le> of_int (?k + 1)" by simp
  ultimately have "?y \<le> (of_int (b ^ nat ?d) :: rat)" by linarith
  then have "1 \<le> x * of_int (b ^ nat ?d)"
    using assms(2) by (simp add: field_simps)
  then have "1 / of_int (b ^ nat ?d) \<le> x"
    using bpos(1) by (simp add: field_simps)
  moreover have "(of_int b :: rat) powi (- ?d) = 1 / of_int (b ^ nat ?d)"
    using dc(1) by (simp add: power_int_def field_simps)
  ultimately have lower: "(of_int b :: rat) powi (- ?d) \<le> x" by simp
  have "(of_int (b ^ nat (?d - 1)) :: rat) \<le> of_int ?k" using dc(2) by (simp only: of_int_le_iff)
  moreover have "of_int ?k < ?y" by linarith
  ultimately have "(of_int (b ^ nat (?d - 1)) :: rat) < ?y" by linarith
  then have "x * of_int (b ^ nat (?d - 1)) < 1"
    using assms(2) by (simp add: field_simps)
  then have "x < 1 / of_int (b ^ nat (?d - 1))"
    using bpos(2) by (simp add: field_simps)
  moreover have "(of_int b :: rat) powi (- ?d + 1) = 1 / of_int (b ^ nat (?d - 1))"
  proof (cases "?d = 1")
    case True
    then show ?thesis by simp
  next
    case False
    then have "- ?d + 1 < 0" using dc(1) by simp
    moreover have "nat (- (- ?d + 1)) = nat (?d - 1)" by simp
    ultimately show ?thesis by (simp add: power_int_def field_simps)
  qed
  ultimately have upper: "x < (of_int b :: rat) powi (- ?d + 1)" by simp
  show ?thesis using lower upper e by simp
qed

lemma round_half_even_error: "\<bar>of_int (round_half_even z) - z\<bar> \<le> 1 / 2"
proof -
  let ?f = "\<lfloor>z\<rfloor>"
  let ?d = "z - of_int ?f"
  have fl: "of_int ?f \<le> z" "z < of_int ?f + 1" by linarith+
  have up: "(of_int (?f + 1) :: rat) = of_int ?f + 1" by simp
  consider "?d < 1 / 2" | "?d > 1 / 2" | "?d = 1 / 2" by linarith
  then show ?thesis
  proof cases
    case 1
    then have r: "round_half_even z = ?f" by (simp add: round_half_even_def Let_def)
    have "\<bar>of_int ?f - z\<bar> \<le> 1 / 2" using 1 fl by linarith
    then show ?thesis by (simp only: r)
  next
    case 2
    then have r: "round_half_even z = ?f + 1" by (simp add: round_half_even_def Let_def)
    have "\<bar>of_int (?f + 1) - z\<bar> \<le> 1 / 2" using 2 fl up by linarith
    then show ?thesis by (simp only: r)
  next
    case 3
    then have r: "round_half_even z = ?f \<or> round_half_even z = ?f + 1"
      by (simp add: round_half_even_def Let_def)
    have "\<bar>of_int ?f - z\<bar> \<le> 1 / 2" "\<bar>of_int (?f + 1) - z\<bar> \<le> 1 / 2"
      using 3 fl up by linarith+
    then show ?thesis using r by auto
  qed
qed

lemma round_to_grid_error:
  assumes "0 < q"
  shows "\<bar>of_int (round_half_even (x / q)) * q - x\<bar> \<le> q / 2"
proof -
  have "of_int (round_half_even (x / q)) * q - x = (of_int (round_half_even (x / q)) - x / q) * q"
    using assms by (simp add: field_simps)
  then have "\<bar>of_int (round_half_even (x / q)) * q - x\<bar>
               = \<bar>of_int (round_half_even (x / q)) - x / q\<bar> * q"
    using assms by (simp add: abs_mult)
  also have "\<dots> \<le> (1 / 2) * q"
    using round_half_even_error [of "x / q"] assms by (intro mult_right_mono) simp_all
  finally show ?thesis by simp
qed

lemma round_sig_error: "\<bar>round_sig 28 x - x\<bar> \<le> \<bar>x\<bar> * 5 / 10 ^ 28"
proof (cases "x = 0")
  case True
  then show ?thesis by (simp add: round_sig_def)
next
  case False
  let ?e = "ilog 10 \<bar>x\<bar>"
  let ?q = "(10 :: rat) powi (?e - 27)"
  have low: "(10 :: rat) powi ?e \<le> \<bar>x\<bar>"
    using ilog_bounds [of 10 "\<bar>x\<bar>"] False by simp
  have q: "?q = 10 powi ?e / 10 ^ 27"
    by (simp add: power_int_diff)
  have qpos: "0 < ?q" by simp
  have "\<bar>round_sig 28 x - x\<bar> \<le> ?q / 2"
    using round_to_grid_error [OF qpos, of x] False by (simp add: round_sig_def Let_def)
  also have "\<dots> \<le> (\<bar>x\<bar> / 10 ^ 27) / 2"
    using low by (simp add: q divide_right_mono)
  finally show ?thesis by simp
qed

lemma to_double_error:
  assumes "1 / 2 ^ 1022 \<le> \<bar>x\<bar>"
  shows "\<bar>to_double x - x\<bar> \<le> \<bar>x\<bar> / 2 ^ 53"
proof -
  have nz: "x \<noteq> 0" using assms by auto
  let ?e = "ilog 2 \<bar>x\<bar>"
  let ?q = "(2 :: rat) powi (?e - 52)"
  have b: "(2 :: rat) powi ?e \<le> \<bar>x\<bar>" "\<bar>x\<bar> < 2 powi (?e + 1)"
    using ilog_bounds [of 2 "\<bar>x\<bar>"] nz by simp_all
  have e: "- 1022 \<le> ?e"
  proof (rule ccontr)
    assume "\<not> - 1022 \<le> ?e"
    then have "?e + 1 \<le> - 1022" by simp
    then have "(2 :: rat) powi (?e + 1) \<le> 2 powi (- 1022)"
      by (intro power_int_increasing) simp_all
    also have "\<dots> = 1 / 2 ^ 1022" by (simp add: power_int_minus_divide)
    finally show False using assms b(2) by linarith
  qed
  have q: "?q = 2 powi ?e / 2 ^ 52" by (simp add: power_int_diff)
  have qpos: "0 < ?q" by simp
  have "to_double x = of_int (round_half_even (x / ?q)) * ?q"
    using nz e by (simp add: to_double_def Let_def max_def)
  then have "\<bar>to_double x - x\<bar> \<le> ?q / 2"
    using round_to_grid_error [OF qpos, of x] by simp
  also have "\<dots> \<le> (\<bar>x\<bar> / 2 ^ 52) / 2"
    using b(1) by (simp add: q divide_right_mono)
  finally show ?thesis by simp
qed

subsection \<open>The quantity of a buy\<close>

lemma spend_examples:
  "min (to_double (2000 * to_double 0.95)) 1000 = 1000"
  "min (to_double (5 * to_double 0.95)) 1000 = 4.75"
  by code_simp+

lemma sizing_example:
  "quantize_down (round_sig 28 (1000 / to_double 0.65)) = 1538.46153846"
  by code_simp

lemma quantize_raises:
  "quantize r = (if 10 ^ 20 \<le> \<bar>quantize_down r\<bar> then Inl InvalidOperation
                 else Inr (quantize_down r))"
proof -
  let ?c = "round_down (r * 10 ^ 8)"
  have abs: "\<bar>quantize_down r\<bar> = of_int \<bar>?c\<bar> / 10 ^ 8"
    by (simp add: quantize_down_def)
  have "(10 ^ 20 \<le> (of_int \<bar>?c\<bar> :: rat) / 10 ^ 8) = ((10 ^ 20 :: rat) * 10 ^ 8 \<le> of_int \<bar>?c\<bar>)"
    by (rule pos_le_divide_eq) simp
  also have "\<dots> = ((of_int (10 ^ 28) :: rat) \<le> of_int \<bar>?c\<bar>)" by simp
  also have "\<dots> = (10 ^ 28 \<le> \<bar>?c\<bar>)" by (simp only: of_int_le_iff)
  finally have "(10 ^ 20 \<le> \<bar>quantize_down r\<bar>) = (10 ^ 28 \<le> \<bar>?c\<bar>)"
    by (simp only: abs)
  then show ?thesis by (simp add: quantize_def)
qed

lemma to_double_quantized_error: "\<bar>to_double (quantize_down r) - quantize_down r\<bar> \<le> \<bar>quantize_down r\<bar> / 2 ^ 53"
proof (cases "round_down (r * 10 ^ 8) = 0")
  case True
  then show ?thesis by (simp add: quantize_down_def to_double_def)
next
  case False
  then have "1 \<le> \<bar>round_down (r * 10 ^ 8)\<bar>" by simp
  then have "(1 :: rat) \<le> of_int \<bar>round_down (r * 10 ^ 8)\<bar>" by (simp only: of_int_1_le_iff)
  then have "1 / 10 ^ 8 \<le> \<bar>quantize_down r\<bar>"
    by (simp add: quantize_down_def divide_right_mono)
  moreover have "(1 :: rat) / 2 ^ 1022 \<le> 1 / 10 ^ 8" by simp
  ultimately have "1 / 2 ^ 1022 \<le> \<bar>quantize_down r\<bar>" by linarith
  then show ?thesis by (rule to_double_error)
qed

lemma try_buy_sized:
  assumes "get_account_balance (balance_reply env) (trader s) = Inr bal"
    and "spend = min (to_double (available (fiat bal) * to_double 0.95)) 1000"
    and "r = round_sig 28 (spend / cur)" and "q = quantize_down r"
  shows "(10 < spend \<and> cur \<noteq> 0 \<and> \<bar>q\<bar> < 10 ^ 20 \<longrightarrow>
            filter is_placement (snd (try_buy cur env s))
              = [ApiPlaceOrder Buy (trading_pair (trader s)) cur (to_double q)])
       \<and> (10 < spend \<and> (cur = 0 \<or> 10 ^ 20 \<le> \<bar>q\<bar>) \<longrightarrow>
            try_buy cur env s = (s, [ApiGetBalance]))
       \<and> (spend \<le> 10 \<longrightarrow> try_buy cur env s = (s, [ApiGetBalance]))"
  using assms
  by (auto simp: try_buy_def place_buy_order_def decimal_quantity_def decimal_divide_def
                 quantize_raises is_placement_def Let_def
           split: sum.splits)

text \<open>
  C2, as stated: flat, with no pending order and a price at or below the buy price, the
  engine takes \<open>spend = min(available_fiat * 0.95, 1000)\<close> and, if \<open>spend > 10\<close>,
  places a limit buy for \<open>spend / price\<close> truncated toward zero, never rounded up, to 8
  decimal places. With fiat 2000 and the buy price 0.65: at the price 0 (what
  \<open>get_current_price\<close> returns when the first fetch fails) the division raises and
  nothing is placed; at the price \<open>2\<^sup>-\<^sup>6\<^sup>0\<close> the quotient needs more than 28 digits at 8
  decimal places, \<open>quantize\<close> raises and nothing is placed; at the price 0.000031 the
  quantity placed, a double, is larger than \<open>spend / price\<close>. With fiat
  10.526315789473685 the exact product with 0.95 exceeds 10, the double product is 10,
  and nothing is placed.
\<close>

theorem buy_sizing_counterexample:
  "\<not> in_position double_trader
   \<and> \<not> truthy (current_order_id double_trader)
   \<and> get_account_balance (balance_reply (example_env (Inr None) 2000)) (trader double_trader)
       = Inr \<lparr>crypto = \<lparr>currency = ''ELY'', available = 0, locked = 0\<rparr>,
              fiat = \<lparr>currency = ''INR'', available = 2000, locked = 0\<rparr>\<rparr>
   \<and> min (2000 * 0.95) 1000 > (10 :: rat)
   \<and> 0 \<le> buy_price double_trader
   \<and> check_price_and_trade 0 (example_env (Inr None) 2000) double_trader
       = (double_trader, [ApiGetBalance])
   \<and> 1 / 2 ^ 60 \<le> buy_price double_trader
   \<and> check_price_and_trade (1 / 2 ^ 60) (example_env (Inr None) 2000) double_trader
       = (double_trader, [ApiGetBalance])
   \<and> to_double 0.000031 \<le> buy_price double_trader
   \<and> filter is_placement
         (snd (check_price_and_trade (to_double 0.000031) (example_env (Inr None) 2000)
                 double_trader))
       = [ApiPlaceOrder Buy ''ELYINR'' (to_double 0.000031) (to_double 32258064.51612903)]
   \<and> to_double 32258064.51612903 > 1000 / to_double 0.000031
   \<and> min (to_double 10.526315789473685 * 0.95) 1000 > 10
   \<and> check_price_and_trade (to_double 0.65)
         (example_env (Inr None) (to_double 10.526315789473685)) double_trader
       = (double_trader, [ApiGetBalance])"
  by code_simp

text \<open>
  C2, amended: flat, with no pending order, a price at or below the buy price, and a
  balance fetch that returns, the engine computes \<open>spend = min(available_fiat * 0.95, 1000)\<close>
  in double arithmetic. If \<open>spend \<le> 10\<close> (fiat 5 gives 4.75) only the balance is
  fetched and the trader stays as it is, FLAT. If \<open>spend > 10\<close>, let \<open>r\<close> be
  \<open>spend / price\<close> rounded to 28 significant digits and \<open>q\<close> be \<open>r\<close> truncated toward zero
  to 8 decimal places: a multiple of \<open>10\<^sup>-\<^sup>8\<close>, never larger in magnitude than \<open>r\<close> and
  less than \<open>10\<^sup>-\<^sup>8\<close> away from it, \<open>r\<close> itself within 5 parts in \<open>10\<^sup>2\<^sup>8\<close> of the quotient.
  When the price is not 0 and \<open>q\<close> is below \<open>10\<^sup>2\<^sup>0\<close> in magnitude, the one call of
  \<open>api.place_order\<close> is a buy at the current price for the double nearest to \<open>q\<close>, which
  is within one part in \<open>2\<^sup>5\<^sup>3\<close> of \<open>q\<close>; fiat 2000 at the price 0.65 gives the spend 1000
  and \<open>q\<close> = 1538.46153846. When the price is 0 or \<open>q\<close> reaches \<open>10\<^sup>2\<^sup>0\<close> the computation
  of the quantity raises, only the balance is fetched and the trader stays as it is.
\<close>

theorem buy_sizing:
  assumes "\<not> in_position s" and "\<not> truthy (current_order_id s)"
    and "cur \<le> buy_price s"
    and "get_account_balance (balance_reply env) (trader s) = Inr bal"
    and "spend = min (to_double (available (fiat bal) * to_double 0.95)) 1000"
    and "r = round_sig 28 (spend / cur)" and "q = quantize_down r"
  shows "(10 < spend \<and> cur \<noteq> 0 \<and> \<bar>q\<bar> < 10 ^ 20 \<longrightarrow>
            filter is_placement (snd (check_price_and_trade cur env s))
              = [ApiPlaceOrder Buy (trading_pair (trader s)) cur (to_double q)])
       \<and> (10 < spend \<and> (cur = 0 \<or> 10 ^ 20 \<le> \<bar>q\<bar>) \<longrightarrow>
            check_price_and_trade cur env s = (s, [ApiGetBalance]))
       \<and> (spend \<le> 10 \<longrightarrow> check_price_and_trade cur env s = (s, [ApiGetBalance]))
       \<and> machine_state_of s = FLAT
       \<and> \<bar>q\<bar> \<le> \<bar>r\<bar> \<and> \<bar>r - q\<bar> < 1 / 10 ^ 8
       \<and> q * 10 ^ 8 = of_int (round_down (r * 10 ^ 8))
       \<and> \<bar>r - spend / cur\<bar> \<le> \<bar>spend / cur\<bar> * 5 / 10 ^ 28
       \<and> \<bar>to_double q - q\<bar> \<le> \<bar>q\<bar> / 2 ^ 53
       \<and> min (to_double (2000 * to_double 0.95)) 1000 = 1000
       \<and> quantize_down (round_sig 28 (1000 / to_double 0.65)) = 1538.46153846
       \<and> min (to_double (5 * to_double 0.95)) 1000 = 4.75"
proof -
  have cycle: "check_price_and_trade cur env s = try_buy cur env s"
    using assms(1-3) by (simp add: check_price_and_trade_def poll_pending_idle place_orders_def)
  have flat: "machine_state_of s = FLAT"
    using assms(1,2) by (simp add: machine_state_of_def)
  have grid: "q * 10 ^ 8 = of_int (round_down (r * 10 ^ 8))"
    by (simp add: assms(7) quantize_down_def)
  have trunc: "\<bar>q\<bar> \<le> \<bar>r\<bar>" "\<bar>r - q\<bar> < 1 / 10 ^ 8"
    using quantize_down_bounds [of r] by (simp_all add: assms(7))
  have dec: "\<bar>r - spend / cur\<bar> \<le> \<bar>spend / cur\<bar> * 5 / 10 ^ 28"
    using round_sig_error [of "spend / cur"] by (simp add: assms(6))
  have dbl: "\<bar>to_double q - q\<bar> \<le> \<bar>q\<bar> / 2 ^ 53"
    using to_double_quantized_error [of r] by (simp add: assms(7))
  show ?thesis
    using try_buy_sized [OF assms(4-7)] spend_examples sizing_example cycle flat grid trunc dec dbl
    by simp
qed

theorem buy_sizing_witness:
  "filter is_placement
     (snd (check_price_and_trade (to_double 0.65) (example_env (Inr None) 2000) double_trader))
     = [ApiPlaceOrder Buy ''ELYINR'' (to_double 0.65) (to_double 1538.46153846)]
   \<and> check_price_and_trade (to_double 0.65) (example_env (Inr None) 5) double_trader
     = (double_trader, [ApiGetBalance])
   \<and> check_price_and_trade 0 (example_env (Inr None) 2000) double_trader
     = (double_trader, [ApiGetBalance])"
proof -
  let ?s = "double_trader"
  let ?b = "\<lambda>x. \<lparr>crypto = \<lparr>currency = ''ELY'', available = 0, locked = 0\<rparr>,
                  fiat = \<lparr>currency = ''INR'', available = x, locked = 0\<rparr>\<rparr>"
  have s: "\<not> in_position ?s" "\<not> truthy (current_order_id ?s)"
          "trading_pair (trader ?s) = ''ELYINR''"
    by (simp_all add: double_trader_def init_auto_trader_def truthy_def)
  have le: "to_double 0.65 \<le> buy_price ?s" "0 \<le> buy_price ?s"
    by code_simp+
  have b: "get_account_balance (balance_reply (example_env (Inr None) x)) (trader ?s) = Inr (?b x)"
    for x
    by (simp add: example_env_def double_trader_def init_auto_trader_def get_account_balance_def
                  scan_balance_def get_or_zero_def)
  have big: "(1000 :: rat) = min (to_double (available (fiat (?b 2000)) * to_double 0.95)) 1000"
    by code_simp
  have small: "(4.75 :: rat) = min (to_double (available (fiat (?b 5)) * to_double 0.95)) 1000"
    by code_simp
  have q: "(1538.46153846 :: rat) = quantize_down (round_sig 28 (1000 / to_double 0.65))"
    by code_simp
  have q0: "(0 :: rat) = quantize_down (round_sig 28 (1000 / 0))"
    by code_simp
  have nz: "to_double 0.65 \<noteq> 0" by code_simp
  show ?thesis
    using buy_sizing [OF s(1,2) le(1) b big refl q]
          buy_sizing [OF s(1,2) le(1) b small refl refl]
          buy_sizing [OF s(1,2) le(2) b big refl q0]
          s(3) nz
    by simp
qed

section \<open>Properties of the trading loop\<close>

lemma update_entries:
  "distinct (map fst xs) \<Longrightarrow> (a, b) \<in> set (AList.update k v xs) \<Longrightarrow>
     (a = k \<and> b = v) \<or> ((a, b) \<in> set xs \<and> a \<noteq> k)"
  by (induction xs) (force split: if_splits)+

lemma map_entry_entries:
  "distinct (map fst xs) \<Longrightarrow> (a, b) \<in> set (AList.map_entry k f xs) \<Longrightarrow>
     (a = k \<and> (\<exists>r. (k, r) \<in> set xs \<and> b = f r)) \<or> ((a, b) \<in> set xs \<and> a \<noteq> k)"
  by (induction xs) (force split: if_splits)+

lemma distinct_map_entry_keys: "distinct (map fst (AList.map_entry k f xs)) = distinct (map fst xs)"
  by (simp add: map_entry_keys)

lemma filter_one_key:
  "distinct (map fst xs) \<Longrightarrow> \<forall>x \<in> set xs. P x \<longrightarrow> fst x = c \<Longrightarrow> length (filter P xs) \<le> 1"
proof (induction xs)
  case Nil
  then show ?case by simp
next
  case (Cons x xs)
  show ?case
  proof (cases "P x")
    case True
    then have "fst x = c" using Cons.prems(2) by simp
    then have "c \<notin> fst ` set xs" using Cons.prems(1) by auto
    then have "\<not> P y" if "y \<in> set xs" for y
      using that Cons.prems(2) by (metis image_eqI list.set_intros(2))
    then have "\<forall>y \<in> set xs. \<not> P y" by blast
    then have "filter P xs = []" by (simp add: filter_empty_conv)
    then show ?thesis using True by simp
  next
    case False
    then show ?thesis using Cons by simp
  qed
qed

lemma tracked_ok_active:
  assumes "tracked_ok s"
  shows "length (get_active_orders (trader s)) \<le> 1"
proof -
  have "length (filter (\<lambda>(oid, r). \<not> terminal r) (active_orders (trader s))) \<le> 1"
  proof (cases "current_order_id s")
    case None
    then have "filter (\<lambda>(oid, r). \<not> terminal r) (active_orders (trader s)) = []"
      using assms by (auto simp: tracked_ok_def filter_empty_conv)
    then show ?thesis by simp
  next
    case (Some c)
    then show ?thesis
      using assms by (intro filter_one_key [where c = c]) (auto simp: tracked_ok_def)
  qed
  then show ?thesis by (simp add: get_active_orders_def)
qed

lemma tracked_ok_idle:
  assumes "tracked_ok s" "\<not> truthy (current_order_id s)"
  shows "get_active_orders (trader s) = []"
  using assms
  by (auto simp: tracked_ok_def get_active_orders_def filter_empty_conv truthy_def
           split: option.splits)

lemma tracked_ok_init: "tracked_ok (init_auto_trader pair bp sp)"
  by (simp add: tracked_ok_def init_auto_trader_def)

lemma tracked_ok_resolve:
  assumes "tracked_ok s" "current_order_id s = Some oid"
  shows "tracked_ok (fst (resolve_status status
           (s\<lparr>trader := (trader s)\<lparr>active_orders :=
                AList.map_entry oid (\<lambda>r. r\<lparr>order_status := status\<rparr>)
                  (active_orders (trader s))\<rparr>\<rparr>)))"
  using assms
  by (auto simp: tracked_ok_def resolve_status_def map_entry_keys terminal_def
           dest!: map_entry_entries [rotated])

lemma tracked_ok_after_poll: "tracked_ok s \<Longrightarrow> tracked_ok (after_poll env s)"
proof (cases "truthy (current_order_id s)")
  case False
  assume "tracked_ok s"
  then show ?thesis using False by (simp add: after_poll_def poll_pending_idle)
next
  case True
  assume ok: "tracked_ok s"
  from True obtain oid where oid: "current_order_id s = Some oid" "oid \<noteq> []"
    by (auto simp: truthy_def split: option.splits)
  show ?thesis
  proof (cases "status_reply env")
    case (Inl e)
    then show ?thesis using ok oid by (simp add: after_poll_def poll_pending_raises)
  next
    case (Inr status)
    then show ?thesis
      using tracked_ok_resolve [OF ok oid(1)] oid by (simp add: after_poll_def poll_pending_reply)
  qed
qed

lemma tracked_ok_store:
  assumes "tracked_ok s" "\<not> truthy (current_order_id s)"
    and "trader s' = store_order order_id sd p q n (trader s)"
    and "current_order_id s' = order_id"
  shows "tracked_ok s'"
proof -
  have idle: "\<forall>(k, r) \<in> set (active_orders (trader s)). k \<noteq> [] \<and> terminal r"
    using assms by (auto simp: tracked_ok_def truthy_def split: option.splits)
  show ?thesis
    using assms(1,3,4) idle
    by (auto simp: tracked_ok_def store_order_def distinct_update split: option.splits
             dest!: update_entries [rotated])
qed

lemma tracked_ok_same:
  "trader s' = trader s \<Longrightarrow> current_order_id s' = current_order_id s \<Longrightarrow>
     tracked_ok s' = tracked_ok s"
  by (simp add: tracked_ok_def)

lemma tracked_ok_try_buy:
  assumes "tracked_ok s" "\<not> truthy (current_order_id s)"
  shows "tracked_ok (fst (try_buy cur env s))"
  using assms
  by (auto simp: try_buy_def place_buy_order_def Let_def
           split: sum.splits option.splits
           intro: tracked_ok_store [OF assms])

lemma tracked_ok_try_sell:
  assumes "tracked_ok s" "\<not> truthy (current_order_id s)"
  shows "tracked_ok (fst (try_sell cur env s))"
  using assms
  by (auto simp: try_sell_def place_sell_order_def Let_def
           split: sum.splits option.splits
           intro: tracked_ok_store [OF assms])

lemma tracked_ok_place_orders: "tracked_ok s \<Longrightarrow> tracked_ok (fst (place_orders cur env s))"
  by (simp add: place_orders_def tracked_ok_try_buy tracked_ok_try_sell)

lemma tracked_ok_cycle: "tracked_ok s \<Longrightarrow> tracked_ok (fst (check_price_and_trade cur env s))"
  by (cases "fst (poll_pending env s)")
     (simp_all add: cycle_split cycle_returns_early tracked_ok_after_poll tracked_ok_place_orders)

lemma tracked_ok_run: "tracked_ok s \<Longrightarrow> tracked_ok (run_cycles cs s)"
  by (induction cs arbitrary: s) (simp_all add: tracked_ok_cycle)

lemma placement_needs_idle:
  assumes "filter is_placement (snd (check_price_and_trade cur env s)) \<noteq> []"
  shows "\<not> truthy (current_order_id (after_poll env s))"
proof (cases "fst (poll_pending env s)")
  case True
  then show ?thesis using assms by (simp add: cycle_returns_early poll_pending_no_placement)
next
  case False
  then have "filter is_placement (snd (place_orders cur env (after_poll env s))) \<noteq> []"
    using assms by (simp add: cycle_split poll_pending_no_placement)
  then show ?thesis by (auto simp: place_orders_pending)
qed

text \<open>
  C1. From the initial state (FLAT, no tracked order), after any sequence of polling
  cycles, with any prices and any replies of the exchange, at most one tracked order is
  neither filled nor cancelled; and a cycle calls \<open>api.place_order\<close> only when, after
  its status poll, every tracked order is filled or cancelled.
\<close>

theorem one_outstanding_order:
  "length (get_active_orders (trader (run_cycles cs (init_auto_trader pair bp sp)))) \<le> 1
   \<and> (filter is_placement
          (snd (check_price_and_trade cur env (run_cycles cs (init_auto_trader pair bp sp)))) \<noteq> []
        \<longrightarrow> get_active_orders
              (trader (after_poll env (run_cycles cs (init_auto_trader pair bp sp)))) = [])"
  using tracked_ok_active [OF tracked_ok_run [OF tracked_ok_init]]
        tracked_ok_idle [OF tracked_ok_after_poll [OF tracked_ok_run [OF tracked_ok_init]]
                            placement_needs_idle]
  by blast

theorem one_outstanding_order_witness:
  "filter is_placement
     (snd (check_price_and_trade 0.64 (example_env (Inr None) 2000)
             (run_cycles [(0.64, example_env (Inr None) 2000),
                          (0.66, example_env (Inr (Some ''cancelled'')) 2000)]
                (init_auto_trader ''ELYINR'' 0.65 0.70)))) \<noteq> []
   \<and> length (get_active_orders
         (trader (run_cycles [(0.64, example_env (Inr None) 2000),
                              (0.66, example_env (Inr (Some ''cancelled'')) 2000)]
                    (init_auto_trader ''ELYINR'' 0.65 0.70)))) \<le> 1
   \<and> get_active_orders
         (trader (after_poll (example_env (Inr None) 2000)
            (run_cycles [(0.64, example_env (Inr None) 2000),
                         (0.66, example_env (Inr (Some ''cancelled'')) 2000)]
               (init_auto_trader ''ELYINR'' 0.65 0.70)))) = []"
proof -
  have placed: "filter is_placement
     (snd (check_price_and_trade 0.64 (example_env (Inr None) 2000)
             (run_cycles [(0.64, example_env (Inr None) 2000),
                          (0.66, example_env (Inr (Some ''cancelled'')) 2000)]
                (init_auto_trader ''ELYINR'' 0.65 0.70)))) \<noteq> []"
    by code_simp
  show ?thesis
    using placed
          one_outstanding_order
            [of "[(0.64, example_env (Inr None) 2000),
                  (0.66, example_env (Inr (Some ''cancelled'')) 2000)]"
                "''ELYINR''" "0.65" "0.70" "0.64" "example_env (Inr None) 2000"]
    by blast
qed

section \<open>Properties of the tracking loop\<close>

lemma tracking_cycle_result:
  "tracking_cycle tick st =
     (case fetch_last_price (fst tick) of
        Inr p \<Rightarrow>
          Inr ((fst st)\<lparr>current_price := Some p,
                        price_history := append_sample \<lparr>timestamp = snd tick, sample_price = p\<rparr>
                                           (price_history (fst st))\<rparr>,
               call_callbacks (callbacks (fst st)) p (snd st))
      | Inl e \<Rightarrow>
          Inr ((fst st)\<lparr>price_history :=
                          append_sample
                            \<lparr>timestamp = snd tick,
                             sample_price = cached_or_zero (current_price (fst st))\<rparr>
                            (price_history (fst st))\<rparr>,
               call_callbacks (callbacks (fst st)) (cached_or_zero (current_price (fst st)))
                 (snd st)))"
  by (simp add: tracking_cycle_def get_current_price_def split: sum.splits)

lemma length_observed_prices: "length (observed_prices c rs) = length rs"
  by (induction rs arbitrary: c) (auto split: sum.splits)

lemma window_append:
  "drop (length (drop (length xs - n) xs @ ys) - n) (drop (length xs - n) xs @ ys)
     = drop (length (xs @ ys) - n) (xs @ ys)"
  by (cases "length xs \<le> n") (auto simp: add.commute)

lemma append_sample_window:
  "length h \<le> 1000 \<Longrightarrow> append_sample smp h = drop (length (h @ [smp]) - 1000) (h @ [smp])"
  by (cases "length h = 1000") (auto simp: append_sample_def Let_def drop_Suc tl_append split: list.splits)

lemma length_append_sample: "length h \<le> 1000 \<Longrightarrow> length (append_sample smp h) \<le> 1000"
  by (auto simp: append_sample_def Let_def)

lemma observed_samples_Cons:
  "observed_samples c (tick # ticks) =
     (case fetch_last_price (fst tick) of
        Inr p \<Rightarrow> \<lparr>timestamp = snd tick, sample_price = p\<rparr> # observed_samples (Some p) ticks
      | Inl e \<Rightarrow> \<lparr>timestamp = snd tick, sample_price = cached_or_zero c\<rparr>
                 # observed_samples c ticks)"
  by (simp add: observed_samples_def split: sum.splits)

lemma start_tracking_history:
  "length (price_history t) \<le> 1000 \<Longrightarrow>
     price_history (fst (start_tracking ticks (t, ob)))
       = drop (length (price_history t @ observed_samples (current_price t) ticks) - 1000)
           (price_history t @ observed_samples (current_price t) ticks)"
proof (induction ticks arbitrary: t ob)
  case Nil
  then show ?case by (simp add: observed_samples_def)
next
  case (Cons tick ticks)
  show ?case
  proof (cases "fetch_last_price (fst tick)")
    case (Inl e)
    let ?smp = "\<lparr>timestamp = snd tick, sample_price = cached_or_zero (current_price t)\<rparr>"
    let ?t = "t\<lparr>price_history := append_sample ?smp (price_history t)\<rparr>"
    have len: "length (price_history ?t) \<le> 1000"
      using Cons.prems by (simp add: length_append_sample)
    have "price_history (fst (start_tracking (tick # ticks) (t, ob)))
            = price_history (fst (start_tracking ticks
                (?t, call_callbacks (callbacks t) (cached_or_zero (current_price t)) ob)))"
      using Inl by (simp add: tracking_cycle_result)
    also have "\<dots> = drop (length (price_history ?t @ observed_samples (current_price t) ticks) - 1000)
                        (price_history ?t @ observed_samples (current_price t) ticks)"
      using Cons.IH [OF len] by simp
    also have "\<dots> = drop (length ((price_history t @ [?smp]) @ observed_samples (current_price t) ticks) - 1000)
                        ((price_history t @ [?smp]) @ observed_samples (current_price t) ticks)"
      using window_append [of "price_history t @ [?smp]" 1000] Cons.prems
      by (simp add: append_sample_window)
    finally show ?thesis using Inl by (simp add: observed_samples_Cons)
  next
    case (Inr p)
    let ?smp = "\<lparr>timestamp = snd tick, sample_price = p\<rparr>"
    let ?t = "t\<lparr>current_price := Some p, price_history := append_sample ?smp (price_history t)\<rparr>"
    have len: "length (price_history ?t) \<le> 1000"
      using Cons.prems by (simp add: length_append_sample)
    have "price_history (fst (start_tracking (tick # ticks) (t, ob)))
            = price_history (fst (start_tracking ticks (?t, call_callbacks (callbacks t) p ob)))"
      using Inr by (simp add: tracking_cycle_result)
    also have "\<dots> = drop (length (price_history ?t @ observed_samples (Some p) ticks) - 1000)
                        (price_history ?t @ observed_samples (Some p) ticks)"
      using Cons.IH [OF len] by simp
    also have "\<dots> = drop (length ((price_history t @ [?smp]) @ observed_samples (Some p) ticks) - 1000)
                        ((price_history t @ [?smp]) @ observed_samples (Some p) ticks)"
      using window_append [of "price_history t @ [?smp]" 1000] Cons.prems
      by (simp add: append_sample_window)
    finally show ?thesis using Inr by (simp add: observed_samples_Cons)
  qed
qed

lemma length_observed_samples: "length (observed_samples c ticks) = length ticks"
  by (simp add: observed_samples_def length_observed_prices)

lemma timestamps_observed_samples: "map timestamp (observed_samples c ticks) = map snd ticks"
proof -
  have "map timestamp (observed_samples c ticks)
          = map fst (zip (map snd ticks) (observed_prices c (map fst ticks)))"
    by (simp add: observed_samples_def case_prod_unfold)
  then show ?thesis by (simp add: length_observed_prices)
qed

lemma example_ticks_clock: "map snd (example_ticks n) = map int [0..<n]"
  by (simp add: example_ticks_def comp_def)

lemma sorted_example_clock: "sorted (map int [0..<n])"
  by (simp add: sorted_map sorted_wrt_mono_rel [OF _ sorted_upt [of 0 n]])

lemma observed_samples_replicate:
  "observed_samples c (replicate n (Ticker (Some p), ts))
     = replicate n \<lparr>timestamp = ts, sample_price = p\<rparr>"
  by (induction n arbitrary: c) (simp_all add: observed_samples_def fetch_last_price_def)

text \<open>
  C6, as stated: the history keeps its timestamps non-decreasing, and after 1001 appends
  the first-appended sample is absent. The timestamps are readings of the wall clock,
  which can be set back: readings 5 and then 3 give the timestamps 5, 3. And when all
  1001 passes observe the same price at the same second, the sample appended first is
  equal to each sample the history still holds.
\<close>

theorem price_history_counterexample:
  "map timestamp
     (price_history (fst (start_tracking [(Ticker (Some 0.64), 5), (Ticker (Some 0.65), 3)]
                            (init_tracker\<lparr>callbacks := []\<rparr>, ()))))
     = [5, 3]
   \<and> \<not> sorted [5, 3 :: int]
   \<and> length (replicate 1001 (Ticker (Some 0.64), 7 :: int)) = 1001
   \<and> hd (observed_samples None (replicate 1001 (Ticker (Some 0.64), 7)))
       \<in> set (price_history
                (fst (start_tracking (replicate 1001 (Ticker (Some 0.64), 7))
                        (init_tracker\<lparr>callbacks := []\<rparr>, ()))))"
proof -
  have stepped: "map timestamp
     (price_history (fst (start_tracking [(Ticker (Some 0.64), 5), (Ticker (Some 0.65), 3)]
                            (init_tracker\<lparr>callbacks := []\<rparr>, ()))))
     = [5, 3]"
    by code_simp
  let ?ticks = "replicate 1001 (Ticker (Some 0.64), 7 :: int)"
  let ?smp = "\<lparr>timestamp = 7, sample_price = 0.64\<rparr>"
  have "price_history (fst (start_tracking ?ticks (init_tracker\<lparr>callbacks := []\<rparr>, ())))
          = drop (1001 - 1000) (replicate 1001 ?smp)"
    using start_tracking_history [of "init_tracker\<lparr>callbacks := []\<rparr>" ?ticks "()"]
    by (simp add: init_tracker_def observed_samples_replicate)
  then have kept: "price_history (fst (start_tracking ?ticks (init_tracker\<lparr>callbacks := []\<rparr>, ())))
          = replicate 1000 ?smp"
    by simp
  have first: "hd (observed_samples None ?ticks) = ?smp"
    by (simp add: observed_samples_replicate)
  show ?thesis using stepped kept first by simp
qed

text \<open>
  C6, amended: after any number of passes of the loop of \<open>start_tracking\<close>, started with
  an empty history, the history holds at most 1000 samples and evicts oldest-first: it
  is the last 1000 of the samples observed, in the order observed. When the clock
  readings of the passes do not decrease, neither do the timestamps of the history.
  After 1001 passes the history is the observed samples without the first one, its last
  sample is the 1001st, and the first sample is not in it when the clock readings are
  distinct.
\<close>

theorem price_history_bounded:
  "length (price_history (fst (start_tracking ticks (init_tracker\<lparr>callbacks := cbs\<rparr>, ob)))) \<le> 1000
   \<and> price_history (fst (start_tracking ticks (init_tracker\<lparr>callbacks := cbs\<rparr>, ob)))
       = drop (length ticks - 1000) (observed_samples None ticks)
   \<and> (sorted (map snd ticks) \<longrightarrow>
        sorted (map timestamp
          (price_history (fst (start_tracking ticks (init_tracker\<lparr>callbacks := cbs\<rparr>, ob))))))
   \<and> (length ticks = 1001 \<longrightarrow>
        price_history (fst (start_tracking ticks (init_tracker\<lparr>callbacks := cbs\<rparr>, ob)))
          = tl (observed_samples None ticks)
        \<and> last (price_history (fst (start_tracking ticks (init_tracker\<lparr>callbacks := cbs\<rparr>, ob))))
          = last (observed_samples None ticks)
        \<and> (distinct (map snd ticks) \<longrightarrow>
             hd (observed_samples None ticks)
               \<notin> set (price_history
                        (fst (start_tracking ticks (init_tracker\<lparr>callbacks := cbs\<rparr>, ob))))))"
proof -
  let ?h = "price_history (fst (start_tracking ticks (init_tracker\<lparr>callbacks := cbs\<rparr>, ob)))"
  let ?all = "observed_samples None ticks"
  have h: "?h = drop (length ticks - 1000) ?all"
    using start_tracking_history [of "init_tracker\<lparr>callbacks := cbs\<rparr>" ticks ob]
    by (simp add: init_tracker_def length_observed_samples)
  have len: "length ?h \<le> 1000"
    by (simp add: h length_observed_samples)
  have srt: "sorted (map snd ticks) \<longrightarrow> sorted (map timestamp ?h)"
    by (simp add: h drop_map [symmetric] timestamps_observed_samples)
  have full: "length ticks = 1001 \<longrightarrow>
        ?h = tl ?all \<and> last ?h = last ?all
        \<and> (distinct (map snd ticks) \<longrightarrow> hd ?all \<notin> set ?h)"
  proof
    assume n: "length ticks = 1001"
    then have tl: "?h = tl ?all" by (simp add: h drop_Suc)
    have ne: "tl ?all \<noteq> []"
      using n length_observed_samples [of None ticks] by (cases ?all) auto
    have lst: "last ?h = last ?all"
      using ne by (simp add: tl last_tl)
    have "hd ?all \<notin> set ?h" if "distinct (map snd ticks)"
    proof -
      have "distinct (map timestamp ?all)" using that by (simp add: timestamps_observed_samples)
      then have "distinct ?all" by (simp add: distinct_map)
      then show ?thesis using ne by (cases ?all) (auto simp: tl)
    qed
    then show "?h = tl ?all \<and> last ?h = last ?all
        \<and> (distinct (map snd ticks) \<longrightarrow> hd ?all \<notin> set ?h)"
      using tl lst by blast
  qed
  show ?thesis using h len srt full by blast
qed


theorem price_history_bounded_witness:
  "length (example_ticks 1001) = 1001
   \<and> sorted (map snd (example_ticks 1001))
   \<and> distinct (map snd (example_ticks 1001))
   \<and> length (price_history (fst (start_tracking (example_ticks 1001)
                (init_tracker\<lparr>callbacks := []\<rparr>, ())))) \<le> 1000
   \<and> price_history (fst (start_tracking (example_ticks 1001) (init_tracker\<lparr>callbacks := []\<rparr>, ())))
       = tl (observed_samples None (example_ticks 1001))
   \<and> last (price_history (fst (start_tracking (example_ticks 1001)
                (init_tracker\<lparr>callbacks := []\<rparr>, ()))))
       = last (observed_samples None (example_ticks 1001))
   \<and> hd (observed_samples None (example_ticks 1001))
       \<notin> set (price_history (fst (start_tracking (example_ticks 1001)
                  (init_tracker\<lparr>callbacks := []\<rparr>, ()))))
   \<and> sorted (map timestamp (price_history (fst (start_tracking (example_ticks 1001)
                (init_tracker\<lparr>callbacks := []\<rparr>, ())))))"
proof -
  have n: "length (example_ticks 1001) = 1001" by (simp add: example_ticks_def)
  have s: "sorted (map snd (example_ticks 1001))"
    by (simp only: example_ticks_clock sorted_example_clock)
  have d: "distinct (map snd (example_ticks 1001))"
    by (simp add: example_ticks_clock distinct_map inj_on_def)
  show ?thesis
    using n s d price_history_bounded [of "example_ticks 1001" "[]" "()"]
    by blast
qed

section \<open>Properties of alert monitoring\<close>

lemma start_tracking_observer:
  "callbacks t = [cb] \<Longrightarrow>
     snd (start_tracking ticks (t, ob))
       = fold (\<lambda>p ob. snd (cb p ob)) (observed_prices (current_price t) (map fst ticks)) ob"
proof (induction ticks arbitrary: t ob)
  case Nil
  then show ?case by simp
next
  case (Cons tick ticks)
  then show ?case
    by (cases "fetch_last_price (fst tick)") (simp_all add: tracking_cycle_result)
qed

lemma price_callback_returns: "fst (price_callback p ob) = None"
  by (simp add: price_callback_def Let_def)

lemma monitor_loop_step:
  "monitor_loop (r # rs) (t, ob) =
     (case fetch_last_price r of
        Inr p \<Rightarrow> monitor_loop rs (t\<lparr>current_price := Some p\<rparr>, snd (price_callback p ob))
      | Inl e \<Rightarrow>
          monitor_loop rs (t, snd (price_callback (cached_or_zero (current_price t)) ob)))"
proof (cases "fetch_last_price r")
  case (Inl e)
  then show ?thesis
    using price_callback_returns [of "cached_or_zero (current_price t)" ob]
    by (cases "price_callback (cached_or_zero (current_price t)) ob")
       (simp add: get_current_price_def)
next
  case (Inr p)
  then show ?thesis
    using price_callback_returns [of p ob]
    by (cases "price_callback p ob") (simp add: get_current_price_def)
qed

lemma monitor_loop_observer:
  "snd (monitor_loop rs (t, ob))
     = fold (\<lambda>p ob. snd (price_callback p ob)) (observed_prices (current_price t) rs) ob"
proof (induction rs arbitrary: t ob)
  case Nil
  then show ?case by simp
next
  case (Cons r rs)
  then show ?case
    by (cases "fetch_last_price r") (simp_all add: monitor_loop_step del: monitor_loop.simps)
qed

lemma start_tracking_cache:
  "current_price (fst (start_tracking ticks (t, ob)))
     = fold (\<lambda>r c. case fetch_last_price r of Inr p \<Rightarrow> Some p | Inl e \<Rightarrow> c)
         (map fst ticks) (current_price t)"
proof (induction ticks arbitrary: t ob)
  case Nil
  then show ?case by simp
next
  case (Cons tick ticks)
  then show ?case
    by (cases "fetch_last_price (fst tick)") (simp_all add: tracking_cycle_result)
qed

lemma monitor_loop_cache:
  "current_price (fst (monitor_loop rs (t, ob)))
     = fold (\<lambda>r c. case fetch_last_price r of Inr p \<Rightarrow> Some p | Inl e \<Rightarrow> c)
         rs (current_price t)"
proof (induction rs arbitrary: t ob)
  case Nil
  then show ?case by simp
next
  case (Cons r rs)
  then show ?case
    by (cases "fetch_last_price r") (simp_all add: monitor_loop_step del: monitor_loop.simps)
qed

text \<open>
  C9. Run as the callback registered with the tracker and driven by the tracker's loop,
  or run by its own monitor loop, the alert system ends with the same thresholds, the
  same set of triggered alerts and the same sequence of alerts sent, for every sequence
  of ticker replies: in both modes each observed price goes through \<open>price_callback\<close>,
  in order. The price cache ends the same too.
\<close>

theorem monitoring_modes_agree:
  "snd (start_monitoring True ticks (t\<lparr>callbacks := []\<rparr>, a, sent))
     = snd (start_monitoring False ticks (t\<lparr>callbacks := []\<rparr>, a, sent))
   \<and> snd (start_monitoring False ticks (t\<lparr>callbacks := []\<rparr>, a, sent))
     = fold (\<lambda>p ob. snd (price_callback p ob))
         (observed_prices (current_price t) (map fst ticks)) (a, sent)
   \<and> current_price (fst (start_monitoring True ticks (t\<lparr>callbacks := []\<rparr>, a, sent)))
     = current_price (fst (start_monitoring False ticks (t\<lparr>callbacks := []\<rparr>, a, sent)))"
proof -
  let ?t = "t\<lparr>callbacks := []\<rparr>"
  have cb: "callbacks (register_callback price_callback ?t) = [price_callback]"
    by (simp add: register_callback_def)
  have c: "current_price (register_callback price_callback ?t) = current_price t"
    by (simp add: register_callback_def)
  have tracked: "snd (start_monitoring True ticks (?t, a, sent))
      = fold (\<lambda>p ob. snd (price_callback p ob))
          (observed_prices (current_price t) (map fst ticks)) (a, sent)"
    using start_tracking_observer [OF cb, of ticks "(a, sent)"]
    by (simp add: start_monitoring_def c)
  have polled: "snd (start_monitoring False ticks (?t, a, sent))
      = fold (\<lambda>p ob. snd (price_callback p ob))
          (observed_prices (current_price t) (map fst ticks)) (a, sent)"
    using monitor_loop_observer [of "map fst ticks" ?t "(a, sent)"]
    by (simp add: start_monitoring_def)
  have cache: "current_price (fst (start_monitoring True ticks (?t, a, sent)))
      = current_price (fst (start_monitoring False ticks (?t, a, sent)))"
    by (simp add: start_monitoring_def start_tracking_cache monitor_loop_cache c)
  show ?thesis using tracked polled cache by simp
qed

theorem monitoring_modes_agree_witness:
  "snd (start_monitoring True
          [(Ticker (Some 0.70), 1), (Ticker (Some 0.72), 2), (TickerRaises RequestException, 3)]
          (init_tracker\<lparr>callbacks := []\<rparr>,
           \<lparr>alert_pair = ''ELYINR'', thresholds = [(''high'', 0.71)], triggered_alerts = {}\<rparr>,
           []))
     = (\<lparr>alert_pair = ''ELYINR'', thresholds = [(''high'', 0.71)],
         triggered_alerts = {(''high'', 0.71)}\<rparr>,
        [SendPriceAlert ''ELYINR'' 0.72 ''high'' 0.71])
   \<and> snd (start_monitoring False
          [(Ticker (Some 0.70), 1), (Ticker (Some 0.72), 2), (TickerRaises RequestException, 3)]
          (init_tracker\<lparr>callbacks := []\<rparr>,
           \<lparr>alert_pair = ''ELYINR'', thresholds = [(''high'', 0.71)], triggered_alerts = {}\<rparr>,
           []))
     = (\<lparr>alert_pair = ''ELYINR'', thresholds = [(''high'', 0.71)],
         triggered_alerts = {(''high'', 0.71)}\<rparr>,
        [SendPriceAlert ''ELYINR'' 0.72 ''high'' 0.71])"
proof -
  have polled: "snd (start_monitoring False
          [(Ticker (Some 0.70), 1), (Ticker (Some 0.72), 2), (TickerRaises RequestException, 3)]
          (init_tracker\<lparr>callbacks := []\<rparr>,
           \<lparr>alert_pair = ''ELYINR'', thresholds = [(''high'', 0.71)], triggered_alerts = {}\<rparr>,
           []))
     = (\<lparr>alert_pair = ''ELYINR'', thresholds = [(''high'', 0.71)],
         triggered_alerts = {(''high'', 0.71)}\<rparr>,
        [SendPriceAlert ''ELYINR'' 0.72 ''high'' 0.71])"
    by code_simp
  show ?thesis
    using polled
          monitoring_modes_agree
            [of "[(Ticker (Some 0.70), 1), (Ticker (Some 0.72), 2),
                  (TickerRaises RequestException, 3)]"
                init_tracker
                "\<lparr>alert_pair = ''ELYINR'', thresholds = [(''high'', 0.71)],
                  triggered_alerts = {}\<rparr>"
                "[]"]
    by simp
qed

section \<open>Properties of the alert checks\<close>

lemma check_threshold_member:
  "k \<in> snd (check_threshold p x acc) \<longleftrightarrow>
     (if x = k
      then (if trigger_condition k p then True else if rearms k p then False else k \<in> snd acc)
      else k \<in> snd acc)"
  by (cases x; cases k)
     (auto simp: check_threshold_def trigger_condition_def rearms_def Let_def)

lemma fold_check_threshold_member:
  "k \<in> snd (fold (check_threshold p) items acc) \<longleftrightarrow>
     (if k \<in> set items
      then (if trigger_condition k p then True else if rearms k p then False else k \<in> snd acc)
      else k \<in> snd acc)"
proof (induction items arbitrary: acc)
  case Nil
  then show ?case by simp
next
  case (Cons x items)
  show ?case
    using Cons.IH [of "check_threshold p x acc"] check_threshold_member [of k p x acc]
    by (simp split: if_splits)
qed

lemma check_threshold_fired:
  "\<exists>new. fst (check_threshold p x acc) = fst acc @ new
     \<and> (new = [] \<or> (new = [\<lparr>alert_type = fst x, alert_threshold = snd x, alert_current_price = p\<rparr>]
                    \<and> trigger_condition x p \<and> x \<notin> snd acc \<and> x \<in> snd (check_threshold p x acc)))"
  by (cases x) (auto simp: check_threshold_def trigger_condition_def Let_def)

lemma check_threshold_keeps:
  "k \<in> snd acc \<Longrightarrow> trigger_condition k p \<Longrightarrow> k \<in> snd (check_threshold p x acc)"
  by (simp add: check_threshold_member)

lemma fold_check_threshold_fired:
  "\<exists>new. fst (fold (check_threshold p) items acc) = fst acc @ new
     \<and> distinct (map alert_key new)
     \<and> (\<forall>al \<in> set new. alert_key al \<in> set items \<and> trigger_condition (alert_key al) p
                          \<and> alert_key al \<notin> snd acc \<and> alert_current_price al = p)"
proof (induction items arbitrary: acc)
  case Nil
  then show ?case by simp
next
  case (Cons x items)
  obtain n1 where n1: "fst (check_threshold p x acc) = fst acc @ n1"
    "n1 = [] \<or> (n1 = [\<lparr>alert_type = fst x, alert_threshold = snd x, alert_current_price = p\<rparr>]
                    \<and> trigger_condition x p \<and> x \<notin> snd acc \<and> x \<in> snd (check_threshold p x acc))"
    using check_threshold_fired [of p x acc] by blast
  obtain n2 where n2: "fst (fold (check_threshold p) items (check_threshold p x acc))
                         = fst (check_threshold p x acc) @ n2"
    "distinct (map alert_key n2)"
    "\<forall>al \<in> set n2. alert_key al \<in> set items \<and> trigger_condition (alert_key al) p
                          \<and> alert_key al \<notin> snd (check_threshold p x acc) \<and> alert_current_price al = p"
    using Cons.IH [of "check_threshold p x acc"] by blast
  have old: "alert_key al \<notin> snd acc" if "al \<in> set n2" for al
    using n2(3) that check_threshold_keeps [of "alert_key al" acc p x] by blast
  have "fst (fold (check_threshold p) (x # items) acc) = fst acc @ (n1 @ n2)"
    using n1(1) n2(1) by simp
  moreover have "distinct (map alert_key (n1 @ n2))"
  proof (cases "n1 = []")
    case True
    then show ?thesis using n2(2) by simp
  next
    case False
    then have one: "map alert_key n1 = [x]" and inx: "x \<in> snd (check_threshold p x acc)"
      using n1(2) by (simp_all add: alert_key_def)
    have "x \<notin> set (map alert_key n2)" using n2(3) inx by auto
    then show ?thesis using one n2(2) by simp
  qed
  moreover have "\<forall>al \<in> set (n1 @ n2). alert_key al \<in> set (x # items)
                    \<and> trigger_condition (alert_key al) p
                    \<and> alert_key al \<notin> snd acc \<and> alert_current_price al = p"
  proof
    fix al assume "al \<in> set (n1 @ n2)"
    then consider "al \<in> set n1" | "al \<in> set n2" by auto
    then show "alert_key al \<in> set (x # items) \<and> trigger_condition (alert_key al) p
                    \<and> alert_key al \<notin> snd acc \<and> alert_current_price al = p"
    proof cases
      case 1
      then have "alert_key al = x" "trigger_condition x p" "x \<notin> snd acc"
                "alert_current_price al = p"
        using n1(2) by (auto simp: alert_key_def)
      then show ?thesis by simp
    next
      case 2
      then show ?thesis using n2(3) old by simp
    qed
  qed
  ultimately show ?case by blast
qed


lemma check_alerts_member:
  "k \<in> triggered_alerts (snd (check_alerts p a)) \<longleftrightarrow>
     (if k \<in> set (thresholds a)
      then (if trigger_condition k p then True else if rearms k p then False
            else k \<in> triggered_alerts a)
      else k \<in> triggered_alerts a)"
  using fold_check_threshold_member [of k p "thresholds a" "([], triggered_alerts a)"]
  by (simp add: check_alerts_def Let_def)

lemma check_alerts_thresholds: "thresholds (snd (check_alerts p a)) = thresholds a"
  by (simp add: check_alerts_def Let_def)

lemma check_alerts_fired:
  assumes "fired k (fst (check_alerts p a))"
  shows "k \<in> set (thresholds a) \<and> trigger_condition k p \<and> k \<notin> triggered_alerts a
         \<and> k \<in> triggered_alerts (snd (check_alerts p a))"
proof -
  obtain new where new: "fst (fold (check_threshold p) (thresholds a) ([], triggered_alerts a)) = new"
    "\<forall>al \<in> set new. alert_key al \<in> set (thresholds a) \<and> trigger_condition (alert_key al) p
                          \<and> alert_key al \<notin> triggered_alerts a \<and> alert_current_price al = p"
    using fold_check_threshold_fired [of p "thresholds a" "([], triggered_alerts a)"] by auto
  have "fst (check_alerts p a) = new" using new(1) by (simp add: check_alerts_def Let_def)
  then obtain al where "al \<in> set new" "alert_key al = k" using assms by (auto simp: fired_def)
  then have "k \<in> set (thresholds a)" "trigger_condition k p" "k \<notin> triggered_alerts a"
    using new(2) by auto
  then show ?thesis by (simp add: check_alerts_member)
qed

lemma check_alerts_distinct: "distinct (map alert_key (fst (check_alerts p a)))"
  using fold_check_threshold_fired [of p "thresholds a" "([], triggered_alerts a)"]
  by (auto simp: check_alerts_def Let_def)

lemma check_alerts_leaves:
  "k \<in> triggered_alerts a \<Longrightarrow> k \<notin> triggered_alerts (snd (check_alerts p a)) \<Longrightarrow> rearms k p"
  by (simp add: check_alerts_member split: if_splits)

lemma feed_alerts_append:
  "feed_alerts (xs @ ys) a =
     (fst (feed_alerts xs a) @ fst (feed_alerts ys (snd (feed_alerts xs a))),
      snd (feed_alerts ys (snd (feed_alerts xs a))))"
  by (induction xs arbitrary: a) (simp_all add: Let_def)

lemma length_feed_alerts: "length (fst (feed_alerts ps a)) = length ps"
  by (induction ps arbitrary: a) (simp_all add: Let_def)

lemma feed_alerts_nth:
  "i < length ps \<Longrightarrow>
     fst (feed_alerts ps a) ! i = fst (check_alerts (ps ! i) (snd (feed_alerts (take i ps) a)))"
proof (induction ps arbitrary: i a)
  case Nil
  then show ?case by simp
next
  case (Cons p ps)
  then show ?case by (cases i) (simp_all add: Let_def)
qed

lemma feed_alerts_take_Suc:
  "i < length ps \<Longrightarrow>
     snd (feed_alerts (take (Suc i) ps) a)
       = snd (check_alerts (ps ! i) (snd (feed_alerts (take i ps) a)))"
  by (simp add: take_Suc_conv_app_nth feed_alerts_append Let_def)

lemma feed_alerts_leaves:
  "k \<in> triggered_alerts a \<Longrightarrow> k \<notin> triggered_alerts (snd (feed_alerts ps a)) \<Longrightarrow>
     \<exists>m < length ps. rearms k (ps ! m)"
proof (induction ps arbitrary: a)
  case Nil
  then show ?case by simp
next
  case (Cons p ps)
  show ?case
  proof (cases "k \<in> triggered_alerts (snd (check_alerts p a))")
    case True
    then obtain m where "m < length ps" "rearms k (ps ! m)"
      using Cons.IH [of "snd (check_alerts p a)"] Cons.prems(2) by (auto simp: Let_def)
    then have "Suc m < length (p # ps) \<and> rearms k ((p # ps) ! Suc m)" by simp
    then show ?thesis by blast
  next
    case False
    then have "rearms k p" using Cons.prems(1) by (rule check_alerts_leaves [rotated])
    then have "0 < length (p # ps) \<and> rearms k ((p # ps) ! 0)" by simp
    then show ?thesis by blast
  qed
qed

lemma fired_twice:
  assumes "i < j" "j < length ps"
    and "fired k (fst (feed_alerts ps a) ! i)" "fired k (fst (feed_alerts ps a) ! j)"
  shows "\<exists>m. i < m \<and> m < j \<and> rearms k (ps ! m)"
proof -
  let ?mid = "drop (Suc i) (take j ps)"
  let ?ai = "snd (feed_alerts (take (Suc i) ps) a)"
  have i: "i < length ps" using assms(1,2) by simp
  have "k \<in> triggered_alerts (snd (check_alerts (ps ! i) (snd (feed_alerts (take i ps) a))))"
    using check_alerts_fired [of k "ps ! i" "snd (feed_alerts (take i ps) a)"] assms(3) i
    by (simp add: feed_alerts_nth)
  then have after_i: "k \<in> triggered_alerts ?ai" using i by (simp add: feed_alerts_take_Suc)
  have split: "take j ps = take (Suc i) ps @ ?mid"
  proof -
    have "take (Suc i) (take j ps) = take (Suc i) ps" using assms(1) by (simp add: min_def)
    then show ?thesis using append_take_drop_id [of "Suc i" "take j ps"] by simp
  qed
  have "k \<notin> triggered_alerts (snd (feed_alerts (take j ps) a))"
    using check_alerts_fired [of k "ps ! j" "snd (feed_alerts (take j ps) a)"] assms(2,4)
    by (simp add: feed_alerts_nth)
  then have before_j: "k \<notin> triggered_alerts (snd (feed_alerts ?mid ?ai))"
    using split feed_alerts_append [of "take (Suc i) ps" ?mid a] by simp
  obtain m where m: "m < length ?mid" "rearms k (?mid ! m)"
    using feed_alerts_leaves [OF after_i before_j] by blast
  have lt: "Suc i + m < j" using m(1) assms(2) by simp
  have "?mid ! m = take j ps ! (Suc i + m)" using assms(1,2) by simp
  then have nth: "?mid ! m = ps ! (Suc i + m)" using lt by simp
  have "rearms k (ps ! (Suc i + m))" using m(2) by (simp only: nth)
  then have "i < Suc i + m \<and> Suc i + m < j \<and> rearms k (ps ! (Suc i + m))"
    using lt by simp
  then show ?thesis by blast
qed

lemma hysteresis_example:
  "fst (feed_alerts [0.70, 0.72, 0.715, 0.72]
          \<lparr>alert_pair = ''ELYINR'', thresholds = [(''high'', 0.71)], triggered_alerts = {}\<rparr>)
     = [[], [\<lparr>alert_type = ''high'', alert_threshold = 0.71, alert_current_price = 0.72\<rparr>],
        [], []]"
  by code_simp

text \<open>
  C3. For every threshold mapping and every sequence of prices fed one at a time to
  \<open>check_alerts\<close>: an entry that fires at one price and again at a later one has seen
  a re-arming price strictly in between (below 0.98 times the threshold for a high alert,
  above 1.02 times the threshold for a low one); one call fires an entry at most once,
  and only an entry that was not in the triggered set, which then holds it; and an entry
  leaves the triggered set, in one call or over a sequence, only at a re-arming price.
  The prices 0.70, 0.72, 0.715, 0.72 against the high threshold 0.71 fire once, at the
  first 0.72.
\<close>

theorem alerts_once_per_excursion:
  "(i < j \<and> j < length ps \<and> fired k (fst (feed_alerts ps a) ! i)
      \<and> fired k (fst (feed_alerts ps a) ! j)
      \<longrightarrow> (\<exists>m. i < m \<and> m < j \<and> rearms k (ps ! m)))
   \<and> distinct (map alert_key (fst (check_alerts p a)))
   \<and> (fired k (fst (check_alerts p a)) \<longrightarrow>
        k \<in> set (thresholds a) \<and> trigger_condition k p \<and> k \<notin> triggered_alerts a
        \<and> k \<in> triggered_alerts (snd (check_alerts p a)))
   \<and> (k \<in> triggered_alerts a \<and> k \<notin> triggered_alerts (snd (check_alerts p a))
        \<longrightarrow> rearms k p)
   \<and> (k \<in> triggered_alerts a \<and> k \<notin> triggered_alerts (snd (feed_alerts ps a))
        \<longrightarrow> (\<exists>m < length ps. rearms k (ps ! m)))
   \<and> fst (feed_alerts [0.70, 0.72, 0.715, 0.72]
            \<lparr>alert_pair = ''ELYINR'', thresholds = [(''high'', 0.71)], triggered_alerts = {}\<rparr>)
       = [[], [\<lparr>alert_type = ''high'', alert_threshold = 0.71, alert_current_price = 0.72\<rparr>],
          [], []]"
  using fired_twice [of i j ps k a] check_alerts_distinct [of p a] check_alerts_fired [of k p a]
        check_alerts_leaves [of k a p] feed_alerts_leaves [of k a ps] hysteresis_example
  by blast

theorem alerts_once_per_excursion_witness:
  "(0::nat) < 3 \<and> 3 < length [0.72, 0.715, 0.69, 0.72 :: rat]
   \<and> fired (''high'', 0.71)
        (fst (feed_alerts [0.72, 0.715, 0.69, 0.72]
                \<lparr>alert_pair = ''ELYINR'', thresholds = [(''high'', 0.71)],
                  triggered_alerts = {}\<rparr>) ! 0)
   \<and> fired (''high'', 0.71)
        (fst (feed_alerts [0.72, 0.715, 0.69, 0.72]
                \<lparr>alert_pair = ''ELYINR'', thresholds = [(''high'', 0.71)],
                  triggered_alerts = {}\<rparr>) ! 3)
   \<and> (\<exists>m. 0 < m \<and> m < 3 \<and> rearms (''high'', 0.71) ([0.72, 0.715, 0.69, 0.72] ! m))"
proof -
  let ?a = "\<lparr>alert_pair = ''ELYINR'', thresholds = [(''high'', 0.71)], triggered_alerts = {}\<rparr>"
  have f0: "fired (''high'', 0.71) (fst (feed_alerts [0.72, 0.715, 0.69, 0.72] ?a) ! 0)"
    by code_simp
  have f3: "fired (''high'', 0.71) (fst (feed_alerts [0.72, 0.715, 0.69, 0.72] ?a) ! 3)"
    by code_simp
  have n: "(0::nat) < 3" "3 < length [0.72, 0.715, 0.69, 0.72 :: rat]" by simp_all
  show ?thesis
    using n f0 f3
          alerts_once_per_excursion
            [of 0 3 "[0.72, 0.715, 0.69, 0.72]" "(''high'', 0.71)" ?a 0]
    by blast
qed

end
